theory Spec2Isabelle
  imports Main
begin

section \<open>Spreadsheet values and the JavaScript operators the processor applies to them\<close>

text \<open>
  The stock-tracking processor (\<open>processStockTracking\<close> and its three steps) works on
  ExcelJS workbooks. A cell value is \<open>null\<close> (an empty or never created cell), a text or
  a number. Numbers are modelled as integers (the processor itself only ever writes row
  counts and \<open>0\<close>); \<open>NaN\<close> is kept as a value because the subtraction of
  \<open>calculateVariations\<close> produces it on a text that is not numeric. Dates, formulas and
  rich texts as cell values are outside the model.
\<close>

datatype cellval = Null | Text string | Number int | NaN

text \<open>JavaScript truthiness, as used by \<open>!x\<close> and \<open>x || y\<close>.\<close>

fun truthy :: "cellval \<Rightarrow> bool" where
  "truthy Null = False"
| "truthy (Text s) = (s \<noteq> [])"
| "truthy (Number n) = (n \<noteq> 0)"
| "truthy NaN = False"

definition js_or :: "cellval \<Rightarrow> cellval \<Rightarrow> cellval" where
  "js_or a b = (if truthy a then a else b)"

text \<open>Conversion to a string, as a template literal \<open>`${v}`\<close> does it.\<close>

fun digits :: "nat \<Rightarrow> string" where
  "digits n = (if n < 10 then [char_of (48 + n)]
               else digits (n div 10) @ [char_of (48 + n mod 10)])"

declare digits.simps [simp del]

fun toString :: "cellval \<Rightarrow> string" where
  "toString Null = ''null''"
| "toString (Text s) = s"
| "toString (Number n) = (if n < 0 then CHR ''-'' # digits (nat (- n)) else digits (nat n))"
| "toString NaN = ''NaN''"

text \<open>
  Conversion to a number, as the operators \<open>-\<close> and \<open><=\<close> do it. What JavaScript makes of
  a text (\<open>StringToNumber\<close>) is the parameter \<open>sn\<close>: the model fixes nothing about it.
\<close>

fun toNumber :: "(string \<Rightarrow> cellval) \<Rightarrow> cellval \<Rightarrow> cellval" where
  "toNumber sn Null = Number 0"
| "toNumber sn (Text s) = (case sn s of Number n \<Rightarrow> Number n | _ \<Rightarrow> NaN)"
| "toNumber sn (Number n) = Number n"
| "toNumber sn NaN = NaN"

definition js_minus :: "(string \<Rightarrow> cellval) \<Rightarrow> cellval \<Rightarrow> cellval \<Rightarrow> cellval" where
  "js_minus sn a b =
     (case (toNumber sn a, toNumber sn b) of
        (Number x, Number y) \<Rightarrow> Number (x - y)
      | _ \<Rightarrow> NaN)"

definition js_le :: "(string \<Rightarrow> cellval) \<Rightarrow> cellval \<Rightarrow> int \<Rightarrow> bool" where
  "js_le sn a k = (case toNumber sn a of Number x \<Rightarrow> x \<le> k | _ \<Rightarrow> False)"

text \<open>\<open>toLowerCase\<close> on the letters A to Z; every other character is left as it is.\<close>

fun lower_char :: "char \<Rightarrow> char" where
  "lower_char c = (if (65::nat) \<le> of_char c \<and> of_char c \<le> (90::nat)
                   then char_of (of_char c + (32::nat)) else c)"

definition toLowerCase :: "string \<Rightarrow> string" where
  "toLowerCase s = map lower_char s"

definition startsWith :: "string \<Rightarrow> string \<Rightarrow> bool" where
  "startsWith s p = (take (length p) s = p)"

section \<open>Rows and sheets\<close>

text \<open>
  A row is the list of its cell values, column 1 first; its length is ExcelJS's
  \<open>cellCount\<close>. A cell that was never created and a cell without a value are both \<open>Null\<close>.
  Column numbers start at 1 (ExcelJS rejects column 0, and the processor never asks for
  it); the limit of Excel on the number of columns is not modelled. Reading a cell that
  does not exist yields \<open>null\<close>; that ExcelJS allocates the empty cell on such a read is
  not tracked, as it changes no value.
\<close>

type_synonym row = "cellval list"

definition getCellValue :: "row \<Rightarrow> nat \<Rightarrow> cellval" where
  "getCellValue r c = (if 1 \<le> c \<and> c \<le> length r then r ! (c - 1) else Null)"

definition setCellValue :: "row \<Rightarrow> nat \<Rightarrow> cellval \<Rightarrow> row" where
  "setCellValue r c v = (r @ replicate (c - length r) Null) [c - 1 := v]"

definition hasValues :: "row \<Rightarrow> bool" where
  "hasValues r = (\<exists>v \<in> set r. v \<noteq> Null)"

text \<open>\<open>row.eachCell\<close> visits the cells that have a value, with their column numbers.\<close>

definition eachCell :: "row \<Rightarrow> (nat \<times> cellval) list" where
  "eachCell r = filter (\<lambda>(c, v). v \<noteq> Null) (enumerate 1 r)"

text \<open>\<open>sheet.eachRow\<close> visits the rows that have a value, with their row numbers.\<close>

definition eachRow :: "row list \<Rightarrow> (nat \<times> row) list" where
  "eachRow rs = filter (\<lambda>(n, r). hasValues r) (enumerate 1 rs)"

text \<open>\<open>sheet.getRow(1)\<close>: the header row, created empty when the sheet has no row.\<close>

definition getRow1 :: "row list \<Rightarrow> row" where
  "getRow1 rs = (case rs of [] \<Rightarrow> [] | h # _ \<Rightarrow> h)"

record cellstyle =
  fill :: "string option"
  font :: "(string \<times> bool) option"
  alignment :: "string option"
  border :: "string option"

definition no_style :: cellstyle where
  "no_style = \<lparr>fill = None, font = None, alignment = None, border = None\<rparr>"

text \<open>
  A sheet: its name, its rows (row 1 first, the list ending with the last row that exists),
  the style of each cell by (row, column), and its merged ranges. Column widths, which is
  all that \<open>adjustColumnWidths\<close> assigns, are not modelled.
\<close>

record worksheet =
  ws_name :: string
  ws_rows :: "row list"
  ws_styles :: "nat \<times> nat \<Rightarrow> cellstyle"
  ws_merges :: "string list"

type_synonym workbook = "worksheet list"

section \<open>Dates\<close>

datatype pat = D | C char

fun matches :: "pat list \<Rightarrow> string \<Rightarrow> bool" where
  "matches [] s = (s = [])"
| "matches (p # ps) [] = False"
| "matches (D # ps) (c # cs) =
     ((48::nat) \<le> of_char c \<and> of_char c \<le> (57::nat) \<and> matches ps cs)"
| "matches (C x # ps) (c # cs) = (c = x \<and> matches ps cs)"

definition iso_pattern :: "pat list" where
  "iso_pattern = [D, D, D, D, C CHR ''-'', D, D, C CHR ''-'', D, D]"

definition fr_pattern :: "pat list" where
  "fr_pattern = [D, D, C CHR ''/'', D, D, C CHR ''/'', D, D, D, D]"

text \<open>
  \<open>isValidDate\<close>: \<open>parseDate\<close> returns when one of its two patterns matches and throws
  otherwise; on a value that is not a string the call of \<open>match\<close> throws. \<open>isValidDate\<close>
  catches both.
\<close>

fun isValidDate :: "cellval \<Rightarrow> bool" where
  "isValidDate (Text s) = (matches iso_pattern s \<or> matches fr_pattern s)"
| "isValidDate _ = False"

section \<open>extractExportData\<close>

record entry =
  codeArticle :: cellval
  emplacement :: cellval
  description :: cellval
  descEmplacement :: cellval
  quantite :: int

text \<open>A JavaScript \<open>Map\<close> keeps its keys in the order of their first insertion.\<close>

type_synonym exportData = "(string \<times> entry) list"

definition has :: "exportData \<Rightarrow> string \<Rightarrow> bool" where
  "has data k = (map_of data k \<noteq> None)"

fun increment :: "exportData \<Rightarrow> string \<Rightarrow> exportData" where
  "increment [] k = []"
| "increment ((k', e) # data) k =
     (if k' = k then (k', e\<lparr>quantite := quantite e + 1\<rparr>) # data
      else (k', e) # increment data k)"

definition makeKey :: "cellval \<Rightarrow> cellval \<Rightarrow> string" where
  "makeKey a b = toString a @ ''|'' @ toString b"

definition extractRow :: "exportData \<Rightarrow> nat \<times> row \<Rightarrow> exportData" where
  "extractRow data nr =
     (case nr of (rowNum, r) \<Rightarrow>
        if rowNum = 1 then data
        else
          let codeArticle = getCellValue r 1;
              emplacement = getCellValue r 2;
              description = getCellValue r 3;
              descEmplacement = getCellValue r 4
          in if \<not> truthy codeArticle \<or> \<not> truthy emplacement then data
             else
               let key = makeKey codeArticle emplacement;
                   data' = (if \<not> has data key
                            then data @ [(key, \<lparr>codeArticle = codeArticle,
                                               emplacement = emplacement,
                                               description = js_or description (Text []),
                                               descEmplacement = js_or descEmplacement (Text []),
                                               quantite = 0\<rparr>)]
                            else data)
               in increment data' key)"

definition extractExportData :: "row list \<Rightarrow> exportData" where
  "extractExportData rs = foldl extractRow [] (eachRow rs)"

section \<open>updateTracking\<close>

text \<open>
  The errors the steps throw: the stock sheet is missing; the date is in the header already
  (with the label that the message names); a \<open>TypeError\<close> on a sheet that is
  \<open>undefined\<close>; the error of \<open>addWorksheet\<close> on a name that is taken.
\<close>

datatype error = MissingSheet | DuplicateImport string | TypeError | NameExists string

fun indexWhere :: "('a \<Rightarrow> bool) \<Rightarrow> 'a list \<Rightarrow> nat option" where
  "indexWhere P [] = None"
| "indexWhere P (x # xs) = (if P x then Some 0 else map_option Suc (indexWhere P xs))"

text \<open>
  \<open>workbook.getWorksheet(name)\<close>: the sheet of that exact name. A workbook is the list of
  its sheets in workbook order; the model hands out the position of the sheet, which
  stands for the reference JavaScript hands out.
\<close>

definition getWorksheet :: "workbook \<Rightarrow> string \<Rightarrow> nat option" where
  "getWorksheet wb nm = indexWhere (\<lambda>sheet. ws_name sheet = nm) wb"

text \<open>
  The scan of the header for the date: \<open>dateColIndex\<close> ends as the column of the last
  cell whose value is the label, or stays \<open>null\<close>.
\<close>

definition findDate :: "row \<Rightarrow> string \<Rightarrow> nat option" where
  "findDate headerRow exportDate =
     foldl (\<lambda>dateColIndex (colNum, v). if v = Text exportDate then Some colNum else dateColIndex)
       None (eachCell headerRow)"

definition styleHeaderCell :: "cellstyle \<Rightarrow> cellstyle" where
  "styleHeaderCell st =
     st\<lparr>fill := Some ''FF003366'', font := Some (''FFFFFFFF'', True),
        alignment := Some ''center'', border := Some ''FFFFFFFF''\<rparr>"

definition stockKey :: "row \<Rightarrow> string" where
  "stockKey r = makeKey (getCellValue r 1) (getCellValue r 3)"

text \<open>
  The body of the loop over the existing rows. \<open>eachRow\<close> visits each row that has a value
  once and the body writes to the visited row only, so the loop is a map over the numbered
  rows that leaves the rows without a value as they are.
\<close>

definition updateRow :: "exportData \<Rightarrow> nat \<Rightarrow> nat \<times> row \<Rightarrow> row" where
  "updateRow exportData newColIndex nr =
     (case nr of (rowNum, r) \<Rightarrow>
        if \<not> hasValues r then r
        else if rowNum = 1 then r
        else (case map_of exportData (stockKey r) of
                Some e \<Rightarrow> setCellValue r newColIndex (Number (quantite e))
              | None \<Rightarrow> setCellValue r newColIndex (Number 0)))"

definition existingKeys :: "row list \<Rightarrow> string list" where
  "existingKeys rs = map (\<lambda>(rowNum, r). stockKey r) (filter (\<lambda>(rowNum, r). rowNum \<noteq> 1) (eachRow rs))"

definition newRowsToAdd :: "exportData \<Rightarrow> string list \<Rightarrow> exportData" where
  "newRowsToAdd exportData keys = filter (\<lambda>(key, e). key \<notin> set keys) exportData"

text \<open>\<open>addRow\<close> puts the new row after the last row of the sheet.\<close>

definition addNewRow :: "nat \<Rightarrow> row list \<Rightarrow> string \<times> entry \<Rightarrow> row list" where
  "addNewRow newColIndex rs item =
     (case item of (key, e) \<Rightarrow>
        rs @ [setCellValue [codeArticle e, description e, emplacement e, descEmplacement e]
                newColIndex (Number (quantite e))])"

definition BATCH_SIZE :: nat where
  "BATCH_SIZE = 1000"

text \<open>
  The loop \<open>for (let i = 0; i < newRowsToAdd.length; i += BATCH_SIZE)\<close>, with the batch
  size as a parameter. With a batch size of 0 and rows to add the loop never ends: \<open>None\<close>.
\<close>

function insertBatches :: "nat \<Rightarrow> nat \<Rightarrow> exportData \<Rightarrow> nat \<Rightarrow> row list \<Rightarrow> row list option" where
  "insertBatches batchSize newColIndex items i rs =
     (if i < length items
      then (if batchSize = 0 then None
            else insertBatches batchSize newColIndex items (i + batchSize)
                   (foldl (addNewRow newColIndex) rs (take batchSize (drop i items))))
      else Some rs)"
  by pat_completeness auto
termination
  by (relation "measure (\<lambda>(batchSize, newColIndex, items, i, rs). length items - i)") auto

declare insertBatches.simps [simp del]

text \<open>
  \<open>updateTracking\<close> gets the tracking workbook, the export workbook and the date label
  (the text that \<open>formatDate\<close> made of the date, day/month/year). The model returns the
  error thrown, if any, and the tracking workbook as the call leaves it; the outer \<open>None\<close>
  stands for a loop that does not end, which needs a batch size of 0.
\<close>

definition updateTrackingWith ::
  "nat \<Rightarrow> workbook \<Rightarrow> workbook \<Rightarrow> string \<Rightarrow> (error option \<times> workbook) option" where
  "updateTrackingWith batchSize trackingWb exportWb exportDate =
     (case getWorksheet trackingWb ''Liste de Stock'' of
        None \<Rightarrow> Some (Some MissingSheet, trackingWb)
      | Some i \<Rightarrow>
          let stockSheet = trackingWb ! i;
              rs = ws_rows stockSheet;
              headerRow = getRow1 rs
          in if (case findDate headerRow exportDate of None \<Rightarrow> False | Some c \<Rightarrow> c \<noteq> 0)
             then Some (Some (DuplicateImport exportDate), trackingWb)
             else (case exportWb of
                     [] \<Rightarrow> Some (Some TypeError,
                                 trackingWb [i := stockSheet\<lparr>ws_rows := headerRow # tl rs\<rparr>])
                   | exportSheet # _ \<Rightarrow>
                       let exportData = extractExportData (ws_rows exportSheet);
                           newColIndex = length headerRow + 1;
                           rs1 = setCellValue headerRow newColIndex (Text exportDate) # tl rs;
                           styles1 = (ws_styles stockSheet)
                                       ((1, newColIndex) :=
                                          styleHeaderCell (ws_styles stockSheet (1, newColIndex)));
                           rs2 = map (updateRow exportData newColIndex) (enumerate 1 rs1);
                           toAdd = newRowsToAdd exportData (existingKeys rs1)
                       in map_option
                            (\<lambda>rs3. (None, trackingWb
                                       [i := stockSheet\<lparr>ws_rows := rs3, ws_styles := styles1\<rparr>]))
                            (insertBatches batchSize newColIndex toAdd 0 rs2)))"

definition updateTracking :: "workbook \<Rightarrow> workbook \<Rightarrow> string \<Rightarrow> (error option \<times> workbook) option" where
  "updateTracking trackingWb exportWb exportDate =
     updateTrackingWith BATCH_SIZE trackingWb exportWb exportDate"

section \<open>The variation reports\<close>

definition getHeaders :: "row list \<Rightarrow> cellval list" where
  "getHeaders rs = map snd (eachCell (getRow1 rs))"

text \<open>\<open>Array.prototype.indexOf\<close>: the first position of the value, or \<open>-1\<close>.\<close>

fun indexOf :: "cellval list \<Rightarrow> cellval \<Rightarrow> int" where
  "indexOf [] x = - 1"
| "indexOf (y # ys) x =
     (if y = x then 0 else (let i = indexOf ys x in if i < 0 then - 1 else i + 1))"

definition findSheetByPrefix :: "workbook \<Rightarrow> string \<Rightarrow> nat option" where
  "findSheetByPrefix wb prefix =
     indexWhere (\<lambda>sheet. startsWith (toLowerCase (ws_name sheet)) (toLowerCase prefix)) wb"

text \<open>
  \<open>workbook.removeWorksheet(sheet.id)\<close> takes the sheet found out of the workbook;
  \<open>workbook.addWorksheet(name)\<close> puts a new, empty sheet after the last one, and throws when
  a sheet of the workbook has that name already, letter case apart. (The other checks of
  ExcelJS on a sheet name pass on the two names the processor creates.)
\<close>

definition removeWorksheet :: "workbook \<Rightarrow> nat \<Rightarrow> workbook" where
  "removeWorksheet wb i = take i wb @ drop (Suc i) wb"

definition newWorksheet :: "string \<Rightarrow> worksheet" where
  "newWorksheet nm = \<lparr>ws_name = nm, ws_rows = [], ws_styles = (\<lambda>pos. no_style), ws_merges = []\<rparr>"

definition addWorksheet :: "workbook \<Rightarrow> string \<Rightarrow> error + workbook" where
  "addWorksheet wb nm =
     (if \<exists>ws \<in> set wb. toLowerCase (ws_name ws) = toLowerCase nm then Inl (NameExists nm)
      else Inr (wb @ [newWorksheet nm]))"

text \<open>Writing a value or a style to the cell at a row and a column of a sheet.\<close>

definition putCell :: "row list \<Rightarrow> nat \<Rightarrow> nat \<Rightarrow> cellval \<Rightarrow> row list" where
  "putCell rs r c v =
     (let rs' = rs @ replicate (r - length rs) []
      in rs' [r - 1 := setCellValue (rs' ! (r - 1)) c v])"

definition setValue :: "worksheet \<Rightarrow> nat \<Rightarrow> nat \<Rightarrow> cellval \<Rightarrow> worksheet" where
  "setValue s r c v = s\<lparr>ws_rows := putCell (ws_rows s) r c v\<rparr>"

definition setStyle :: "worksheet \<Rightarrow> nat \<Rightarrow> nat \<Rightarrow> (cellstyle \<Rightarrow> cellstyle) \<Rightarrow> worksheet" where
  "setStyle s r c f = s\<lparr>ws_styles := (ws_styles s) ((r, c) := f (ws_styles s (r, c)))\<rparr>"

text \<open>Of a merge the model keeps the range; the value and the style are those of its first cell.\<close>

definition mergeCells :: "worksheet \<Rightarrow> string \<Rightarrow> worksheet" where
  "mergeCells s rng = s\<lparr>ws_merges := ws_merges s @ [rng]\<rparr>"

record variationRecord =
  codif :: cellval
  designation :: cellval
  magasin :: cellval
  vdescription :: cellval
  variation :: cellval
  qtyActuelle :: cellval

definition variationRow ::
  "(string \<Rightarrow> cellval) \<Rightarrow> nat \<Rightarrow> nat \<Rightarrow> variationRecord list \<Rightarrow> nat \<times> row \<Rightarrow> variationRecord list" where
  "variationRow sn currentColIndex previousColIndex variations nr =
     (case nr of (rowNum, r) \<Rightarrow>
        if rowNum = 1 then variations
        else
          let currentQty = js_or (getCellValue r currentColIndex) (Number 0);
              previousQty = js_or (getCellValue r previousColIndex) (Number 0);
              v = js_minus sn currentQty previousQty
          in if v \<noteq> Number 0
             then variations @ [\<lparr>codif = getCellValue r 1, designation = getCellValue r 2,
                                  magasin = getCellValue r 3, vdescription = getCellValue r 4,
                                  variation = v, qtyActuelle = currentQty\<rparr>]
             else variations)"

definition calculateVariations ::
  "(string \<Rightarrow> cellval) \<Rightarrow> row list \<Rightarrow> nat \<Rightarrow> nat \<Rightarrow> variationRecord list" where
  "calculateVariations sn rs currentColIndex previousColIndex =
     foldl (variationRow sn currentColIndex previousColIndex) [] (eachRow rs)"

definition centered :: "cellstyle \<Rightarrow> cellstyle" where
  "centered st = st\<lparr>alignment := Some ''center''\<rparr>"

definition filled :: "string \<Rightarrow> cellstyle \<Rightarrow> cellstyle" where
  "filled argb st = st\<lparr>fill := Some argb\<rparr>"

definition writeItem :: "(string \<Rightarrow> cellval) \<Rightarrow> worksheet \<Rightarrow> nat \<times> variationRecord \<Rightarrow> worksheet" where
  "writeItem sn sheet ii =
     (case ii of (i, item) \<Rightarrow>
        let s1 = setValue sheet (i + 3) 1 (codif item);
            s2 = setValue s1 (i + 3) 2 (designation item);
            s3 = setValue s2 (i + 3) 3 (magasin item);
            s4 = setValue s3 (i + 3) 4 (vdescription item);
            s5 = setValue s4 (i + 3) 5 (variation item);
            s6 = setValue s5 (i + 3) 6 (qtyActuelle item)
        in if js_le sn (qtyActuelle item) 5 then setStyle s6 (i + 3) 6 (filled ''FFFFCCCC'')
           else if js_le sn (qtyActuelle item) 10 then setStyle s6 (i + 3) 6 (filled ''FFFFDAB9'')
           else s6)"

text \<open>The texts of the reports are the bytes of their UTF-8 encoding.\<close>

definition e_acute :: string where
  "e_acute = [char_of (195::nat), char_of (169::nat)]"

definition noVariationText :: string where
  "noVariationText = ''Aucune variation pour cette p'' @ e_acute @ ''riode''"

definition writeVariationsSheet ::
  "(string \<Rightarrow> cellval) \<Rightarrow> worksheet \<Rightarrow> variationRecord list \<Rightarrow> string \<Rightarrow> string list \<Rightarrow> worksheet" where
  "writeVariationsSheet sn sheet variations title headers =
     (let s1 = setStyle (setStyle (setValue (mergeCells sheet ''A1:F1'') 1 1 (Text title))
                  1 1 centered) 1 1 (filled ''FFD3D3D3'');
          s2 = foldl (\<lambda>s (i, header). setStyle (setValue s 2 (i + 1) (Text header)) 2 (i + 1)
                                          styleHeaderCell)
                 s1 (enumerate 0 headers)
      in if variations \<noteq> []
         then foldl (writeItem sn) s2 (enumerate 0 variations)
         else setStyle (setStyle (setValue (mergeCells s2 ''A3:F3'') 3 1 (Text noVariationText))
                3 1 centered) 3 1 (filled ''FFD3D3D3''))"

definition addNoDataMessage :: "worksheet \<Rightarrow> string \<Rightarrow> string \<Rightarrow> worksheet" where
  "addNoDataMessage sheet message dateContext =
     setStyle (setStyle (setValue (mergeCells sheet ''A1:F1'') 1 1 (Text message))
       1 1 centered) 1 1 (filled ''FFD3D3D3'')"

definition reportHeaders :: "string list" where
  "reportHeaders = [''Codification DSNA'', ''D'' @ e_acute @ ''signation'', ''Magasin'',
                    ''Description'', ''Variation'', ''Quantit'' @ e_acute @ '' actuelle'']"

text \<open>
  \<open>updateMonthlyTracking\<close> and \<open>updateSemestrialTracking\<close> are the same function but for
  the prefix looked for, the name of the new sheet, the message, and the number \<open>n\<close> of
  columns to look back (1 and 6). \<open>fillReport\<close> is what they do once the new sheet exists.
\<close>

definition fillReport ::
  "(string \<Rightarrow> cellval) \<Rightarrow> string \<Rightarrow> nat \<Rightarrow> row list \<Rightarrow> string \<Rightarrow> worksheet \<Rightarrow> worksheet" where
  "fillReport sn message n stockRows exportDate sheet =
     (let headers = getHeaders stockRows;
          currentIndex = indexOf headers (Text exportDate)
      in if currentIndex < int n then addNoDataMessage sheet message exportDate
         else
           let previousDate = headers ! nat (currentIndex - int n)
           in if \<not> isValidDate previousDate then addNoDataMessage sheet message exportDate
              else writeVariationsSheet sn sheet
                     (calculateVariations sn stockRows (nat (currentIndex + 1))
                        (nat (currentIndex + 1 - int n)))
                     (''Variation entre le '' @ toString previousDate @ '' et le '' @ exportDate)
                     reportHeaders)"

definition updateReport ::
  "(string \<Rightarrow> cellval) \<Rightarrow> string \<Rightarrow> string \<Rightarrow> string \<Rightarrow> nat \<Rightarrow> workbook \<Rightarrow> string
     \<Rightarrow> error option \<times> workbook" where
  "updateReport sn prefix nm message n workbook exportDate =
     (let stock = getWorksheet workbook ''Liste de Stock'';
          wb1 = (case findSheetByPrefix workbook prefix of
                   None \<Rightarrow> workbook
                 | Some i \<Rightarrow> removeWorksheet workbook i)
      in case addWorksheet wb1 nm of
           Inl e \<Rightarrow> (Some e, wb1)
         | Inr wb2 \<Rightarrow>
             (case stock of
                None \<Rightarrow> (Some TypeError, wb2)
              | Some j \<Rightarrow>
                  (None, butlast wb2 @
                         [fillReport sn message n (ws_rows (workbook ! j)) exportDate (last wb2)])))"

definition monthMessage :: string where
  "monthMessage = ''Pas de donn'' @ e_acute @ ''es disponibles pour le mois''"

definition semesterMessage :: string where
  "semesterMessage = ''Pas de donn'' @ e_acute @ ''es disponibles pour le semestre''"

definition updateMonthlyTracking ::
  "(string \<Rightarrow> cellval) \<Rightarrow> workbook \<Rightarrow> string \<Rightarrow> error option \<times> workbook" where
  "updateMonthlyTracking sn workbook exportDate =
     updateReport sn ''suivi mensuel'' ''Suivi Mensuel'' monthMessage 1 workbook exportDate"

definition updateSemestrialTracking ::
  "(string \<Rightarrow> cellval) \<Rightarrow> workbook \<Rightarrow> string \<Rightarrow> error option \<times> workbook" where
  "updateSemestrialTracking sn workbook exportDate =
     updateReport sn ''suivi semestriel'' ''Suivi Semestriel'' semesterMessage 6 workbook exportDate"

section \<open>Notions used to state the properties\<close>

text \<open>
  An export row is counted when its article code and its location code are both truthy:
  a missing cell, an empty text and the number 0 are what the code takes for empty.
\<close>

definition counted :: "row \<Rightarrow> bool" where
  "counted r = (truthy (getCellValue r 1) \<and> truthy (getCellValue r 2))"

definition countedRows :: "row list \<Rightarrow> row list" where
  "countedRows rs = filter counted (drop 1 rs)"

definition rowKey :: "row \<Rightarrow> string" where
  "rowKey r = makeKey (getCellValue r 1) (getCellValue r 2)"

definition firstEntry :: "row \<Rightarrow> int \<Rightarrow> entry" where
  "firstEntry r q =
     \<lparr>codeArticle = getCellValue r 1, emplacement = getCellValue r 2,
      description = js_or (getCellValue r 3) (Text []),
      descEmplacement = js_or (getCellValue r 4) (Text []), quantite = q\<rparr>"

definition addCounted :: "exportData \<Rightarrow> row \<Rightarrow> exportData" where
  "addCounted data r =
     increment (if has data (rowKey r) then data else data @ [(rowKey r, firstEntry r 0)])
       (rowKey r)"

text \<open>
  What the aggregation is to hold for a key: nothing when no counted row carries the key,
  else the fields of the first counted row that carries it, with the number of the counted
  rows that carry it.
\<close>

definition entryFor :: "row list \<Rightarrow> string \<Rightarrow> entry option" where
  "entryFor vs k =
     (case find (\<lambda>r. rowKey r = k) vs of
        None \<Rightarrow> None
      | Some r \<Rightarrow> Some (firstEntry r (int (length (filter (\<lambda>r. rowKey r = k) vs)))))"

text \<open>
  The merged table: the header with the label appended, every former row in its place
  (with the new column written when the row has a value), then one row for each
  aggregated key that no former row carries.
\<close>

definition mergedRow :: "exportData \<Rightarrow> nat \<Rightarrow> row \<Rightarrow> row" where
  "mergedRow exportData newColIndex r =
     (if hasValues r
      then setCellValue r newColIndex
             (Number (case map_of exportData (stockKey r) of Some e \<Rightarrow> quantite e | None \<Rightarrow> 0))
      else r)"

definition newRow :: "nat \<Rightarrow> string \<times> entry \<Rightarrow> row" where
  "newRow newColIndex item =
     setCellValue [codeArticle (snd item), description (snd item), emplacement (snd item),
                   descEmplacement (snd item)]
       newColIndex (Number (quantite (snd item)))"

definition unmatched :: "exportData \<Rightarrow> row list \<Rightarrow> exportData" where
  "unmatched exportData rs =
     filter (\<lambda>item. fst item \<notin> set (map stockKey (filter hasValues (tl rs)))) exportData"

definition mergedRows :: "exportData \<Rightarrow> string \<Rightarrow> row list \<Rightarrow> row list" where
  "mergedRows exportData exportDate rs =
     (getRow1 rs @ [Text exportDate])
       # map (mergedRow exportData (length (getRow1 rs) + 1)) (tl rs)
       @ map (newRow (length (getRow1 rs) + 1)) (unmatched exportData rs)"

definition mergedSheet :: "exportData \<Rightarrow> string \<Rightarrow> worksheet \<Rightarrow> worksheet" where
  "mergedSheet exportData exportDate s =
     s\<lparr>ws_rows := mergedRows exportData exportDate (ws_rows s),
       ws_styles := (ws_styles s)
          ((1, length (getRow1 (ws_rows s)) + 1) :=
             styleHeaderCell (ws_styles s (1, length (getRow1 (ws_rows s)) + 1)))\<rparr>"

subsection \<open>Example workbooks\<close>

definition plainStyles :: "nat \<times> nat \<Rightarrow> cellstyle" where
  "plainStyles pos = no_style"

definition noNumber :: "string \<Rightarrow> cellval" where
  "noNumber s = NaN"

definition sheetOf :: "string \<Rightarrow> row list \<Rightarrow> worksheet" where
  "sheetOf nm rs = \<lparr>ws_name = nm, ws_rows = rs, ws_styles = plainStyles, ws_merges = []\<rparr>"

definition identityHeader :: row where
  "identityHeader = [Text ''Codification DSNA'', Text ''Designation'', Text ''Magasin'',
                     Text ''Description'']"

text \<open>
  One tracked item without any date column; an export of three rows for it, one row without
  a location code and one row for an item not tracked yet.
\<close>

definition trackingA :: workbook where
  "trackingA = [sheetOf ''Liste de Stock''
                  [identityHeader, [Text ''X1'', Text ''Valve'', Text ''A'', Text ''Depot A'']]]"

definition exportRowsA :: "row list" where
  "exportRowsA =
     [[Text ''Code'', Text ''Emplacement'', Text ''Description'', Text ''Desc emplacement''],
      [Text ''X1'', Text ''A'', Text ''Valve'', Text ''Depot A''],
      [Text ''X1'', Text ''A'', Text ''Valve bis''],
      [Text ''X2'', Null, Text ''Pump''],
      [Text ''X3'', Text ''B'', Text ''Hose''],
      [Text ''X1'', Text ''A'']]"

definition exportA :: worksheet where
  "exportA = sheetOf ''Export'' exportRowsA"

text \<open>The same tracking table once the export of 15/01/2024 is in it.\<close>

definition trackingB :: workbook where
  "trackingB = [sheetOf ''Liste de Stock''
                  [identityHeader @ [Text ''15/01/2024''],
                   [Text ''X1'', Text ''Valve'', Text ''A'', Text ''Depot A'', Number 3]]]"

text \<open>A tracking table in which two rows carry the key of the same item.\<close>

definition trackingDup :: workbook where
  "trackingDup = [sheetOf ''Liste de Stock''
                    [identityHeader,
                     [Text ''X1'', Text ''Valve'', Text ''A'', Text ''Depot A''],
                     [Text ''X1'', Text ''Valve (copy)'', Text ''A'', Text ''Depot A'']]]"

text \<open>Seven date columns with the quantities 10, 10, 10, 10, 10, 10 and 3 for one item.\<close>

definition stockC :: worksheet where
  "stockC = sheetOf ''Liste de Stock''
     [identityHeader @ [Text ''01/01/2024'', Text ''01/02/2024'', Text ''01/03/2024'',
                        Text ''01/04/2024'', Text ''01/05/2024'', Text ''01/06/2024'',
                        Text ''01/07/2024''],
      [Text ''X1'', Text ''Valve'', Text ''A'', Text ''Depot A'',
       Number 10, Number 10, Number 10, Number 10, Number 10, Number 10, Number 3]]"

text \<open>
  A workbook with a former semestrial report and two sheets whose names start with the
  prefix of the monthly report.
\<close>

definition staleSemester :: worksheet where
  "staleSemester = sheetOf ''Suivi Semestriel'' [[Text ''Pas de donnees'']]"

definition staleReport :: worksheet where
  "staleReport = sheetOf ''Suivi Mensuel'' [[Text ''Variation entre le 01/05/2024 et le 01/06/2024'']]"

definition staleCopy :: worksheet where
  "staleCopy = sheetOf ''Suivi Mensuel (2)'' [[Text ''Variation entre le 01/04/2024 et le 01/05/2024'']]"

definition workbookC :: workbook where
  "workbookC = [stockC, staleSemester, staleReport, staleCopy]"

subsection \<open>Variations\<close>

text \<open>The quantity of a row in a column, an absent one read as 0, and what a data row yields.\<close>

definition quantityAt :: "row \<Rightarrow> nat \<Rightarrow> cellval" where
  "quantityAt r c = js_or (getCellValue r c) (Number 0)"

definition variationOf :: "(string \<Rightarrow> cellval) \<Rightarrow> nat \<Rightarrow> nat \<Rightarrow> row \<Rightarrow> cellval" where
  "variationOf sn cur prev r = js_minus sn (quantityAt r cur) (quantityAt r prev)"

definition recordOf :: "(string \<Rightarrow> cellval) \<Rightarrow> nat \<Rightarrow> nat \<Rightarrow> row \<Rightarrow> variationRecord" where
  "recordOf sn cur prev r =
     \<lparr>codif = getCellValue r 1, designation = getCellValue r 2, magasin = getCellValue r 3,
      vdescription = getCellValue r 4, variation = variationOf sn cur prev r,
      qtyActuelle = quantityAt r cur\<rparr>"

text \<open>The sheets that a report step leaves besides the new one.\<close>

definition withoutFirstMatch :: "workbook \<Rightarrow> string \<Rightarrow> workbook" where
  "withoutFirstMatch wb prefix =
     (case findSheetByPrefix wb prefix of None \<Rightarrow> wb | Some i \<Rightarrow> removeWorksheet wb i)"

section \<open>The aggregation of the export\<close>

lemma not_hasValues_cell: "\<not> hasValues r \<Longrightarrow> getCellValue r c = Null"
  by (auto simp: hasValues_def getCellValue_def)

lemma not_hasValues_not_counted: "\<not> hasValues r \<Longrightarrow> \<not> counted r"
  by (simp add: counted_def not_hasValues_cell)

lemma extractRow_counted:
  "n \<noteq> 1 \<Longrightarrow> extractRow data (n, r) = (if counted r then addCounted data r else data)"
  by (auto simp: extractRow_def counted_def addCounted_def rowKey_def firstEntry_def Let_def)

lemma extractRow_header: "extractRow data (Suc 0, r) = data"
  by (simp add: extractRow_def)

lemma foldl_extractRow_from:
  "2 \<le> n \<Longrightarrow>
     foldl extractRow acc (filter (\<lambda>(n, r). hasValues r) (enumerate n rs))
       = foldl addCounted acc (filter counted rs)"
proof (induction rs arbitrary: acc n)
  case Nil
  then show ?case by simp
next
  case (Cons r rs)
  have n1: "n \<noteq> 1" using Cons.prems by simp
  have "2 \<le> Suc n" using Cons.prems by simp
  note IH = Cons.IH [OF this]
  show ?case
  proof (cases "hasValues r")
    case True
    then show ?thesis using IH by (simp add: extractRow_counted [OF n1])
  next
    case False
    then show ?thesis using IH by (simp add: not_hasValues_not_counted)
  qed
qed

lemma extractExportData_fold: "extractExportData rs = foldl addCounted [] (countedRows rs)"
proof (cases rs)
  case Nil
  then show ?thesis by (simp add: extractExportData_def eachRow_def countedRows_def)
next
  case (Cons h t)
  have "foldl extractRow [] (filter (\<lambda>(n, r). hasValues r) (enumerate (Suc 1) t))
          = foldl addCounted [] (filter counted t)"
    by (rule foldl_extractRow_from) simp
  then show ?thesis using Cons
    by (simp add: extractExportData_def eachRow_def countedRows_def extractRow_header)
qed

lemma map_of_increment:
  "map_of (increment data k') k =
     (if k = k' then map_option (\<lambda>e. e\<lparr>quantite := quantite e + 1\<rparr>) (map_of data k)
      else map_of data k)"
  by (induction data k' rule: increment.induct) auto

lemma keys_increment: "map fst (increment data k) = map fst data"
  by (induction data k rule: increment.induct) auto

lemma map_of_snoc_fresh:
  "map_of data k' = None \<Longrightarrow>
     map_of (data @ [(k', e)]) k = (if k = k' then Some e else map_of data k)"
  by (auto simp: map_add_def split: option.splits)

lemma find_None_filter: "find P xs = None \<Longrightarrow> filter P xs = []"
  by (induction xs) (auto split: if_splits)

lemma find_snoc:
  "find P (xs @ [x]) =
     (case find P xs of None \<Rightarrow> (if P x then Some x else None) | Some y \<Rightarrow> Some y)"
  by (induction xs) auto

lemma addCounted_snoc:
  "foldl addCounted [] (vs @ [r]) =
     increment (if has (foldl addCounted [] vs) (rowKey r) then foldl addCounted [] vs
                else foldl addCounted [] vs @ [(rowKey r, firstEntry r 0)]) (rowKey r)"
  by (simp add: addCounted_def)

lemma fold_addCounted: "map_of (foldl addCounted [] vs) k = entryFor vs k"
proof (induction vs arbitrary: k rule: rev_induct)
  case Nil
  show ?case by (simp add: entryFor_def)
next
  case (snoc r vs)
  define d where "d = foldl addCounted [] vs"
  have IH: "map_of d k' = entryFor vs k'" for k'
    using snoc.IH [of k'] by (simp add: d_def)
  have step: "foldl addCounted [] (vs @ [r]) =
      increment (if has d (rowKey r) then d else d @ [(rowKey r, firstEntry r 0)]) (rowKey r)"
    unfolding d_def by (rule addCounted_snoc)
  show ?case
  proof (cases "has d (rowKey r)")
    case True
    then obtain r0 where r0: "find (\<lambda>x. rowKey x = rowKey r) vs = Some r0"
      using IH [of "rowKey r"] by (auto simp: has_def entryFor_def split: option.splits)
    show ?thesis
      unfolding step using True IH [of k] r0
      by (auto simp: map_of_increment entryFor_def find_snoc firstEntry_def
               split: option.splits)
  next
    case False
    then have none: "map_of d (rowKey r) = None" by (simp add: has_def)
    then have f: "find (\<lambda>x. rowKey x = rowKey r) vs = None"
      using IH [of "rowKey r"] by (auto simp: entryFor_def split: option.splits)
    show ?thesis
      unfolding step using False IH [of k] f
      by (auto simp: map_of_increment map_of_snoc_fresh [OF none] entryFor_def find_snoc
               firstEntry_def find_None_filter
               simp del: map_of_append
               split: option.splits)
  qed
qed

lemma distinct_fold_addCounted: "distinct (map fst (foldl addCounted [] vs))"
proof (induction vs rule: rev_induct)
  case Nil
  show ?case by simp
next
  case (snoc r vs)
  define d where "d = foldl addCounted [] vs"
  have step: "foldl addCounted [] (vs @ [r]) =
      increment (if has d (rowKey r) then d else d @ [(rowKey r, firstEntry r 0)]) (rowKey r)"
    unfolding d_def by (rule addCounted_snoc)
  have "distinct (map fst d)" using snoc.IH by (simp add: d_def)
  then show ?case
    unfolding step
    by (auto simp: keys_increment has_def map_of_eq_None_iff)
qed

lemma distinct_extractExportData: "distinct (map fst (extractExportData rs))"
  by (simp add: extractExportData_fold distinct_fold_addCounted)

text \<open>
  Claim C3 (aggregation by count). For every export sheet and every key, the aggregation
  holds an entry for the key exactly when a row after the header carries the key with an
  article code and a location code that are both non-empty (truthy); the quantity of the
  entry is the number of these rows, whatever their other cells hold, and its descriptive
  fields are those of the first of these rows. Rows with an empty article code or location
  code are not among the counted rows, and no key is held twice.
\<close>

theorem extractExportData_counts:
  "map_of (extractExportData rs) k = entryFor (countedRows rs) k
   \<and> distinct (map fst (extractExportData rs))"
proof
  have "extractExportData rs = foldl addCounted [] (countedRows rs)"
    by (rule extractExportData_fold)
  then show "map_of (extractExportData rs) k = entryFor (countedRows rs) k"
    by (simp only: fold_addCounted)
next
  show "distinct (map fst (extractExportData rs))"
    by (rule distinct_extractExportData)
qed

theorem extractExportData_counts_witness:
  "map_of (extractExportData exportRowsA) ''X1|A'' =
     Some \<lparr>codeArticle = Text ''X1'', emplacement = Text ''A'', description = Text ''Valve'',
           descEmplacement = Text ''Depot A'', quantite = 3\<rparr>
   \<and> distinct (map fst (extractExportData exportRowsA))"
  using extractExportData_counts [of exportRowsA "''X1|A''"]
  by (simp add: entryFor_def countedRows_def counted_def rowKey_def makeKey_def
        getCellValue_def firstEntry_def js_or_def exportRowsA_def)

section \<open>The merge of the export into the tracking table\<close>

lemma addNewRow_fold: "foldl (addNewRow nc) rs items = rs @ map (newRow nc) items"
  by (induction items arbitrary: rs) (auto simp: addNewRow_def newRow_def split: prod.splits)

lemma insertBatches_Some:
  "0 < b \<Longrightarrow> insertBatches b nc items i rs = Some (foldl (addNewRow nc) rs (drop i items))"
proof (induction b nc items i rs rule: insertBatches.induct)
  case (1 b nc items i rs)
  show ?case
  proof (cases "i < length items")
    case True
    have "drop b (drop i items) = drop (i + b) items"
      by (simp add: add.commute)
    then have split: "drop i items = take b (drop i items) @ drop (i + b) items"
      by (metis append_take_drop_id)
    have "insertBatches b nc items i rs =
            insertBatches b nc items (i + b) (foldl (addNewRow nc) rs (take b (drop i items)))"
      using True "1.prems" by (subst insertBatches.simps) simp
    also have "\<dots> = Some (foldl (addNewRow nc) (foldl (addNewRow nc) rs (take b (drop i items)))
                        (drop (i + b) items))"
      using "1.IH" [OF True] "1.prems" by simp
    also have "\<dots> = Some (foldl (addNewRow nc) rs (drop i items))"
      by (subst (2) split) (simp only: foldl_append)
    finally show ?thesis .
  next
    case False
    then show ?thesis by (subst insertBatches.simps) simp
  qed
qed

lemma findDate_step:
  "foldl (\<lambda>dateColIndex (colNum, v). if v = Text d then Some colNum else dateColIndex) acc xs
     = (case filter (\<lambda>(c, v). v = Text d) xs of [] \<Rightarrow> acc | ys \<Rightarrow> Some (fst (last ys)))"
proof (induction xs arbitrary: acc)
  case Nil
  show ?case by simp
next
  case (Cons x xs)
  show ?case by (cases x) (auto simp: Cons.IH split: list.splits)
qed

lemma findDate_found:
  "(case findDate h d of None \<Rightarrow> False | Some c \<Rightarrow> c \<noteq> 0) \<longleftrightarrow> Text d \<in> set h"
proof -
  let ?ys = "filter (\<lambda>(c, v). v = Text d) (eachCell h)"
  have mem: "set ?ys = {(c, v). v = Text d \<and> (c, v) \<in> set (enumerate 1 h)}"
    by (auto simp: eachCell_def)
  show ?thesis
  proof (cases ?ys)
    case Nil
    then have "set ?ys = {}" by simp
    then have "Text d \<notin> set h"
      unfolding mem by (auto simp: in_set_enumerate_eq in_set_conv_nth nth_enumerate_eq)
    then show ?thesis using Nil by (simp add: findDate_def findDate_step)
  next
    case (Cons y ys)
    then have "last ?ys \<in> set ?ys" by (metis last_in_set list.distinct(1))
    then have l: "snd (last ?ys) = Text d" "last ?ys \<in> set (enumerate 1 h)"
      unfolding mem by auto
    then have "fst (last ?ys) \<noteq> 0" "fst (last ?ys) - 1 < length h"
      "h ! (fst (last ?ys) - 1) = Text d"
      by (auto simp: in_set_enumerate_eq)
    then have "fst (last ?ys) \<noteq> 0" "Text d \<in> set h"
      by (auto simp: in_set_conv_nth)
    then show ?thesis using Cons by (simp add: findDate_def findDate_step)
  qed
qed

lemma updateRow_from:
  "2 \<le> n \<Longrightarrow> map (updateRow data nc) (enumerate n rs) = map (mergedRow data nc) rs"
  by (induction rs arbitrary: n) (auto simp: updateRow_def mergedRow_def split: option.splits)

lemma updateRow_header: "updateRow data nc (Suc 0, h) = h"
  by (simp add: updateRow_def)

lemma existingKeys_from:
  "2 \<le> n \<Longrightarrow>
     map (\<lambda>(rowNum, r). stockKey r)
       (filter (\<lambda>(rowNum, r). rowNum \<noteq> 1) (filter (\<lambda>(n, r). hasValues r) (enumerate n rs)))
     = map stockKey (filter hasValues rs)"
  by (induction rs arbitrary: n) auto

lemma existingKeys_tl: "existingKeys (h # t) = map stockKey (filter hasValues t)"
proof -
  have "2 \<le> Suc (Suc 0)" by simp
  from existingKeys_from [OF this, of t] show ?thesis
    by (simp add: existingKeys_def eachRow_def)
qed

lemma updateTrackingWith_result:
  assumes "getWorksheet wb ''Liste de Stock'' = Some i"
      and "Text d \<notin> set (getRow1 (ws_rows (wb ! i)))"
      and "0 < b"
  shows "updateTrackingWith b wb (es # ess) d =
           Some (None, wb [i := mergedSheet (extractExportData (ws_rows es)) d (wb ! i)])"
proof -
  let ?rs = "ws_rows (wb ! i)"
  let ?h = "getRow1 ?rs"
  let ?nc = "Suc (length ?h)"
  let ?data = "extractExportData (ws_rows es)"
  have nodup: "\<not> (case findDate ?h d of None \<Rightarrow> False | Some c \<Rightarrow> c \<noteq> 0)"
    using assms(2) by (simp add: findDate_found)
  have hdr: "setCellValue ?h ?nc (Text d) = ?h @ [Text d]"
    by (simp add: setCellValue_def)
  have upd: "map (updateRow ?data ?nc) (enumerate (Suc (Suc 0)) (tl ?rs))
               = map (mergedRow ?data ?nc) (tl ?rs)"
    by (rule updateRow_from) simp
  have add: "newRowsToAdd ?data (existingKeys ((?h @ [Text d]) # tl ?rs)) = unmatched ?data ?rs"
    by (simp add: newRowsToAdd_def existingKeys_tl unmatched_def case_prod_unfold)
  show ?thesis
    unfolding updateTrackingWith_def
    using assms(1) nodup
    by (simp add: Let_def hdr upd add insertBatches_Some [OF assms(3)] addNewRow_fold
          updateRow_header mergedSheet_def mergedRows_def del: upt_Suc)
qed

lemma updateTracking_result:
  assumes "getWorksheet wb ''Liste de Stock'' = Some i"
      and "Text d \<notin> set (getRow1 (ws_rows (wb ! i)))"
  shows "updateTracking wb (es # ess) d =
           Some (None, wb [i := mergedSheet (extractExportData (ws_rows es)) d (wb ! i)])"
  unfolding updateTracking_def
  by (rule updateTrackingWith_result [OF assms]) (simp add: BATCH_SIZE_def)

lemma updateTrackingWith_any:
  assumes "0 < b" and "0 < b'"
  shows "updateTrackingWith b wb ewb d = updateTrackingWith b' wb ewb d"
  by (simp only: updateTrackingWith_def insertBatches_Some [OF assms(1)]
        insertBatches_Some [OF assms(2)])

lemma getCellValue_setCellValue:
  assumes "1 \<le> c"
  shows "getCellValue (setCellValue r c v) c' = (if c' = c then v else getCellValue r c')"
proof -
  define p where "p = r @ replicate (c - length r) Null"
  define q where "q = p [c - 1 := v]"
  have "length q = max (length r) c" by (simp add: p_def q_def)
  then have len: "length r \<le> length q" "c \<le> length q" "length q \<le> length r \<or> length q \<le> c"
    by (auto simp: max_def)
  have set: "setCellValue r c v = q" by (simp add: setCellValue_def p_def q_def)
  have get: "getCellValue q x = (if 1 \<le> x \<and> x \<le> length q then q ! (x - 1) else Null)" for x
    by (simp add: getCellValue_def)
  show ?thesis
  proof (cases "c' = c")
    case True
    have "c - 1 < length p" using assms by (simp add: p_def)
    then have "q ! (c - 1) = v" by (simp add: q_def)
    moreover have "1 \<le> c \<and> c \<le> length q" using assms len by arith
    ultimately show ?thesis using True by (simp add: set get)
  next
    case False
    have other: "q ! (c' - 1) = p ! (c' - 1)" if "1 \<le> c'"
      using that False assms by (simp add: q_def nth_list_update)
    show ?thesis
    proof (cases "1 \<le> c' \<and> c' \<le> length r")
      case True
      then have "c' - 1 < length r" by arith
      then have "p ! (c' - 1) = r ! (c' - 1)" by (simp add: p_def nth_append)
      moreover have "1 \<le> c' \<and> c' \<le> length q" using True len by arith
      ultimately show ?thesis
        using True False other by (simp add: set get) (simp add: getCellValue_def)
    next
      case out: False
      then have r: "getCellValue r c' = Null" by (auto simp: getCellValue_def)
      show ?thesis
      proof (cases "1 \<le> c' \<and> c' \<le> c")
        case True
        then have "\<not> c' - 1 < length r" "c' - 1 - length r < c - length r"
          using out by arith+
        then have "p ! (c' - 1) = Null" by (simp add: p_def nth_append)
        moreover have "1 \<le> c' \<and> c' \<le> length q" using True len by arith
        ultimately show ?thesis using False other r by (simp add: set get)
      next
        case False
        then have "\<not> (1 \<le> c' \<and> c' \<le> length q)" using out len by arith
        then show ?thesis using r \<open>c' \<noteq> c\<close> by (auto simp: set get)
      qed
    qed
  qed
qed

lemma mergedRow_other:
  "1 \<le> nc \<Longrightarrow> c \<noteq> nc \<Longrightarrow> getCellValue (mergedRow data nc r) c = getCellValue r c"
  by (simp add: mergedRow_def getCellValue_setCellValue)

lemma mergedRow_new:
  "1 \<le> nc \<Longrightarrow> hasValues r \<Longrightarrow>
     getCellValue (mergedRow data nc r) nc =
       Number (case map_of data (stockKey r) of Some e \<Rightarrow> quantite e | None \<Rightarrow> 0)"
  by (simp add: mergedRow_def getCellValue_setCellValue)

lemma mergedRows_nth:
  assumes "1 \<le> j" and "j < length rs"
  shows "mergedRows data d rs ! j = mergedRow data (length (getRow1 rs) + 1) (rs ! j)"
proof -
  obtain j' where j': "j = Suc j'" using assms(1) by (cases j) auto
  then have lt: "j' < length (tl rs)" using assms(2) by simp
  then have "tl rs ! j' = rs ! j" using j' by (simp add: nth_tl)
  then show ?thesis using lt j' by (simp add: mergedRows_def nth_append)
qed

lemma newRow_new: "1 \<le> nc \<Longrightarrow> getCellValue (newRow nc item) nc = Number (quantite (snd item))"
  by (simp add: newRow_def getCellValue_setCellValue)

lemma newRow_unset:
  assumes "4 < c" and "c < nc"
  shows "getCellValue (newRow nc item) c = Null"
proof -
  have "1 \<le> nc" using assms by simp
  then have "getCellValue (newRow nc item) c =
               getCellValue [codeArticle (snd item), description (snd item),
                             emplacement (snd item), descEmplacement (snd item)] c"
    using assms by (simp add: newRow_def getCellValue_setCellValue)
  also have "\<dots> = Null" using assms by (simp add: getCellValue_def)
  finally show ?thesis .
qed

lemma newRow_identity:
  assumes "4 < nc" and "1 \<le> c" and "c \<le> 4"
  shows "getCellValue (newRow nc item) c =
           [codeArticle (snd item), description (snd item), emplacement (snd item),
            descEmplacement (snd item)] ! (c - 1)"
proof -
  have "1 \<le> nc" using assms by simp
  then have "getCellValue (newRow nc item) c =
               getCellValue [codeArticle (snd item), description (snd item),
                             emplacement (snd item), descEmplacement (snd item)] c"
    using assms by (simp add: newRow_def getCellValue_setCellValue)
  also have "\<dots> = [codeArticle (snd item), description (snd item), emplacement (snd item),
                      descEmplacement (snd item)] ! (c - 1)"
    using assms by (simp add: getCellValue_def)
  finally show ?thesis .
qed

lemma unmatched_keys:
  "set (map fst (unmatched data rs)) =
     fst ` set data - stockKey ` {r \<in> set (tl rs). hasValues r}"
  by (auto simp: unmatched_def)

lemma unmatched_distinct: "distinct (map fst data) \<Longrightarrow> distinct (map fst (unmatched data rs))"
  by (simp add: unmatched_def distinct_map_filter)

lemma unmatched_entry:
  "distinct (map fst data) \<Longrightarrow> item \<in> set (unmatched data rs) \<Longrightarrow>
     map_of data (fst item) = Some (snd item)"
  by (cases item) (auto simp: unmatched_def)

lemma indexWhere_Some: "indexWhere P xs = Some i \<Longrightarrow> i < length xs \<and> P (xs ! i)"
  by (induction xs arbitrary: i) (auto split: if_splits)

text \<open>
  Claim C1 (merge postcondition). When the sheet "Liste de Stock" exists, no cell of its
  header holds the date label and the export workbook has a first sheet, \<open>updateTracking\<close>
  returns without an error and leaves the merged sheet in the place of the stock sheet:
  the header is the former header with the label appended as one new column; every former
  row keeps its position and all its other cells, has in the new column the aggregated
  quantity of its key, or 0 when the export does not hold the key (a row without any value
  is not a data row for \<open>eachRow\<close> and is left as it is); after the former rows comes
  exactly one new row for each aggregated key that no former row carries, in the order of
  the aggregation, with the fields of the aggregation in the four identity columns, the
  aggregated quantity in the new column and nothing in the columns between them.
\<close>

theorem updateTracking_merge:
  assumes "getWorksheet wb ''Liste de Stock'' = Some i"
      and "Text d \<notin> set (getRow1 (ws_rows (wb ! i)))"
  shows "let rs = ws_rows (wb ! i);
             exportData = extractExportData (ws_rows exportSheet);
             newCol = length (getRow1 rs) + 1;
             added = unmatched exportData rs;
             rs' = mergedRows exportData d rs
         in updateTracking wb (exportSheet # others) d =
              Some (None, wb [i := mergedSheet exportData d (wb ! i)])
          \<and> ws_rows (mergedSheet exportData d (wb ! i)) = rs'
          \<and> getRow1 rs' = getRow1 rs @ [Text d]
          \<and> length rs' = 1 + length (tl rs) + length added
          \<and> (\<forall>j. 1 \<le> j \<and> j < length rs \<longrightarrow>
                (\<forall>c. c \<noteq> newCol \<longrightarrow> getCellValue (rs' ! j) c = getCellValue (rs ! j) c)
              \<and> (hasValues (rs ! j) \<longrightarrow>
                   getCellValue (rs' ! j) newCol =
                     Number (case map_of exportData (stockKey (rs ! j)) of
                               Some e \<Rightarrow> quantite e | None \<Rightarrow> 0))
              \<and> (\<not> hasValues (rs ! j) \<longrightarrow> rs' ! j = rs ! j))
          \<and> drop (1 + length (tl rs)) rs' = map (newRow newCol) added
          \<and> distinct (map fst added)
          \<and> set (map fst added) = fst ` set exportData - stockKey ` {r \<in> set (tl rs). hasValues r}
          \<and> (\<forall>item \<in> set added.
                map_of exportData (fst item) = Some (snd item)
              \<and> getCellValue (newRow newCol item) newCol = Number (quantite (snd item))
              \<and> (\<forall>c. 4 < c \<and> c < newCol \<longrightarrow> getCellValue (newRow newCol item) c = Null)
              \<and> (\<forall>c. 4 < newCol \<and> 1 \<le> c \<and> c \<le> 4 \<longrightarrow>
                    getCellValue (newRow newCol item) c =
                      [codeArticle (snd item), description (snd item), emplacement (snd item),
                       descEmplacement (snd item)] ! (c - 1)))"
proof -
  define rs where "rs = ws_rows (wb ! i)"
  define exportData where "exportData = extractExportData (ws_rows exportSheet)"
  define newCol where "newCol = length (getRow1 rs) + 1"
  define added where "added = unmatched exportData rs"
  define rs' where "rs' = mergedRows exportData d rs"
  have nc: "1 \<le> newCol" by (simp add: newCol_def)
  have dist: "distinct (map fst exportData)"
    unfolding exportData_def by (rule distinct_extractExportData)
  have 1: "updateTracking wb (exportSheet # others) d =
             Some (None, wb [i := mergedSheet exportData d (wb ! i)])"
    unfolding exportData_def by (rule updateTracking_result [OF assms])
  have 2: "ws_rows (mergedSheet exportData d (wb ! i)) = rs'"
    by (simp add: mergedSheet_def rs'_def rs_def)
  have 3: "getRow1 rs' = getRow1 rs @ [Text d]"
    by (simp add: rs'_def mergedRows_def getRow1_def)
  have 4: "length rs' = 1 + length (tl rs) + length added"
    by (simp add: rs'_def mergedRows_def added_def)
  have 5: "(\<forall>c. c \<noteq> newCol \<longrightarrow> getCellValue (rs' ! j) c = getCellValue (rs ! j) c)
         \<and> (hasValues (rs ! j) \<longrightarrow>
               getCellValue (rs' ! j) newCol =
                 Number (case map_of exportData (stockKey (rs ! j)) of
                           Some e \<Rightarrow> quantite e | None \<Rightarrow> 0))
         \<and> (\<not> hasValues (rs ! j) \<longrightarrow> rs' ! j = rs ! j)"
    if "1 \<le> j \<and> j < length rs" for j
  proof -
    have "rs' ! j = mergedRow exportData newCol (rs ! j)"
      unfolding rs'_def newCol_def using that by (simp add: mergedRows_nth)
    then show ?thesis
      using nc by (simp add: mergedRow_other mergedRow_new) (simp add: mergedRow_def)
  qed
  have 6: "drop (1 + length (tl rs)) rs' = map (newRow newCol) added"
    by (simp add: rs'_def mergedRows_def added_def newCol_def)
  have 7: "distinct (map fst added)"
    unfolding added_def by (rule unmatched_distinct [OF dist])
  have 8: "set (map fst added) = fst ` set exportData - stockKey ` {r \<in> set (tl rs). hasValues r}"
    unfolding added_def by (rule unmatched_keys)
  have 9: "map_of exportData (fst item) = Some (snd item)
         \<and> getCellValue (newRow newCol item) newCol = Number (quantite (snd item))
         \<and> (\<forall>c. 4 < c \<and> c < newCol \<longrightarrow> getCellValue (newRow newCol item) c = Null)
         \<and> (\<forall>c. 4 < newCol \<and> 1 \<le> c \<and> c \<le> 4 \<longrightarrow>
               getCellValue (newRow newCol item) c =
                 [codeArticle (snd item), description (snd item), emplacement (snd item),
                  descEmplacement (snd item)] ! (c - 1))"
    if "item \<in> set added" for item
    using that dist nc unfolding added_def
    by (simp add: unmatched_entry newRow_new newRow_unset newRow_identity)
  from 1 2 3 4 5 6 7 8 9 have
    "updateTracking wb (exportSheet # others) d =
              Some (None, wb [i := mergedSheet exportData d (wb ! i)])
          \<and> ws_rows (mergedSheet exportData d (wb ! i)) = rs'
          \<and> getRow1 rs' = getRow1 rs @ [Text d]
          \<and> length rs' = 1 + length (tl rs) + length added
          \<and> (\<forall>j. 1 \<le> j \<and> j < length rs \<longrightarrow>
                (\<forall>c. c \<noteq> newCol \<longrightarrow> getCellValue (rs' ! j) c = getCellValue (rs ! j) c)
              \<and> (hasValues (rs ! j) \<longrightarrow>
                   getCellValue (rs' ! j) newCol =
                     Number (case map_of exportData (stockKey (rs ! j)) of
                               Some e \<Rightarrow> quantite e | None \<Rightarrow> 0))
              \<and> (\<not> hasValues (rs ! j) \<longrightarrow> rs' ! j = rs ! j))
          \<and> drop (1 + length (tl rs)) rs' = map (newRow newCol) added
          \<and> distinct (map fst added)
          \<and> set (map fst added) = fst ` set exportData - stockKey ` {r \<in> set (tl rs). hasValues r}
          \<and> (\<forall>item \<in> set added.
                map_of exportData (fst item) = Some (snd item)
              \<and> getCellValue (newRow newCol item) newCol = Number (quantite (snd item))
              \<and> (\<forall>c. 4 < c \<and> c < newCol \<longrightarrow> getCellValue (newRow newCol item) c = Null)
              \<and> (\<forall>c. 4 < newCol \<and> 1 \<le> c \<and> c \<le> 4 \<longrightarrow>
                    getCellValue (newRow newCol item) c =
                      [codeArticle (snd item), description (snd item), emplacement (snd item),
                       descEmplacement (snd item)] ! (c - 1)))"
    by blast
  then show ?thesis
    unfolding Let_def rs_def [symmetric] exportData_def [symmetric] newCol_def [symmetric]
      added_def [symmetric] rs'_def [symmetric] .
qed

theorem updateTracking_merge_witness:
  "updateTracking trackingA [exportA] ''15/01/2024'' =
     Some (None, trackingA [0 := mergedSheet (extractExportData (ws_rows exportA)) ''15/01/2024''
                                  (trackingA ! 0)])
   \<and> ws_rows (mergedSheet (extractExportData (ws_rows exportA)) ''15/01/2024'' (trackingA ! 0)) =
       [identityHeader @ [Text ''15/01/2024''],
        [Text ''X1'', Text ''Valve'', Text ''A'', Text ''Depot A'', Number 3],
        [Text ''X3'', Text ''Hose'', Text ''B'', Text [], Number 1]]"
proof -
  have h1: "getWorksheet trackingA ''Liste de Stock'' = Some 0"
    by (simp add: getWorksheet_def trackingA_def sheetOf_def)
  have h2: "Text ''15/01/2024'' \<notin> set (getRow1 (ws_rows (trackingA ! 0)))"
    by (simp add: trackingA_def sheetOf_def getRow1_def identityHeader_def)
  have ev: "mergedRows (extractExportData (ws_rows exportA)) ''15/01/2024''
              (ws_rows (trackingA ! 0)) =
            [identityHeader @ [Text ''15/01/2024''],
             [Text ''X1'', Text ''Valve'', Text ''A'', Text ''Depot A'', Number 3],
             [Text ''X3'', Text ''Hose'', Text ''B'', Text [], Number 1]]"
    by code_simp
  from updateTracking_merge [OF h1 h2, of exportA "[]"] ev show ?thesis
    by (simp add: Let_def)
qed

text \<open>
  Claim C2 (duplicate-import guard). When a cell of the header of the stock sheet holds the
  date label already, \<open>updateTracking\<close> throws the error that carries the label, whatever
  the export workbook is, and the workbook it leaves is the workbook it was given.
\<close>

theorem updateTracking_duplicate:
  assumes "getWorksheet wb ''Liste de Stock'' = Some i"
      and "Text d \<in> set (getRow1 (ws_rows (wb ! i)))"
  shows "updateTracking wb exportWb d = Some (Some (DuplicateImport d), wb)"
  using assms
  by (simp add: updateTracking_def updateTrackingWith_def Let_def findDate_found)

theorem updateTracking_duplicate_witness:
  "updateTracking trackingB [exportA] ''15/01/2024'' =
     Some (Some (DuplicateImport ''15/01/2024''), trackingB)"
proof -
  have h1: "getWorksheet trackingB ''Liste de Stock'' = Some 0"
    by (simp add: getWorksheet_def trackingB_def sheetOf_def)
  have h2: "Text ''15/01/2024'' \<in> set (getRow1 (ws_rows (trackingB ! 0)))"
    by (simp add: trackingB_def sheetOf_def getRow1_def identityHeader_def)
  from updateTracking_duplicate [OF h1 h2] show ?thesis .
qed

text \<open>
  Claim C7 (batch-size invariance). With any batch size of at least 1 the insertion loop
  ends and leaves the rows that one single batch over all the new rows leaves, and the
  whole merge gives the result that the batch size of the code (1000) gives.
\<close>

theorem batch_size_invariance:
  assumes "1 \<le> b"
  shows "insertBatches b nc items 0 rs = Some (foldl (addNewRow nc) rs items)
       \<and> updateTrackingWith b wb exportWb d = updateTracking wb exportWb d"
proof -
  have b: "0 < b" using assms by simp
  have "0 < BATCH_SIZE" by (simp add: BATCH_SIZE_def)
  from updateTrackingWith_any [OF b this] insertBatches_Some [OF b, of nc items 0 rs]
  show ?thesis by (simp add: updateTracking_def)
qed

theorem batch_size_invariance_witness:
  "(1::nat) \<le> 2
   \<and> insertBatches 2 5 (extractExportData exportRowsA) 0 [identityHeader]
       = Some (foldl (addNewRow 5) [identityHeader] (extractExportData exportRowsA))
   \<and> updateTrackingWith 2 trackingA [exportA] ''15/01/2024'' =
       updateTracking trackingA [exportA] ''15/01/2024''"
proof -
  have h: "(1::nat) \<le> 2" by simp
  from batch_size_invariance [OF h] h show ?thesis by simp
qed

text \<open>
  Claim C9 (key uniqueness is not enforced). When two different rows of the stock sheet
  carry the same key and the aggregation holds this key, the merge returns without an
  error and writes the whole aggregated quantity into the new column of both rows.
\<close>

theorem duplicate_keys_get_full_quantity:
  assumes "getWorksheet wb ''Liste de Stock'' = Some i"
      and "Text d \<notin> set (getRow1 (ws_rows (wb ! i)))"
      and "1 \<le> j" and "j < length (ws_rows (wb ! i))"
      and "1 \<le> j'" and "j' < length (ws_rows (wb ! i))" and "j \<noteq> j'"
      and "hasValues (ws_rows (wb ! i) ! j)" and "hasValues (ws_rows (wb ! i) ! j')"
      and "stockKey (ws_rows (wb ! i) ! j) = stockKey (ws_rows (wb ! i) ! j')"
      and "map_of (extractExportData (ws_rows exportSheet)) (stockKey (ws_rows (wb ! i) ! j)) = Some e"
  shows "\<exists>wb'. updateTracking wb (exportSheet # others) d = Some (None, wb')
           \<and> getCellValue (ws_rows (wb' ! i) ! j) (length (getRow1 (ws_rows (wb ! i))) + 1)
               = Number (quantite e)
           \<and> getCellValue (ws_rows (wb' ! i) ! j') (length (getRow1 (ws_rows (wb ! i))) + 1)
               = Number (quantite e)"
proof -
  let ?data = "extractExportData (ws_rows exportSheet)"
  let ?rs = "ws_rows (wb ! i)"
  let ?nc = "length (getRow1 ?rs) + 1"
  let ?wb' = "wb [i := mergedSheet ?data d (wb ! i)]"
  have i: "i < length wb"
    using assms(1) indexWhere_Some [of _ wb i] by (simp add: getWorksheet_def)
  then have rows: "ws_rows (?wb' ! i) = mergedRows ?data d ?rs"
    by (simp add: mergedSheet_def)
  have a: "getCellValue (mergedRows ?data d ?rs ! j) ?nc = Number (quantite e)"
    using assms(3,4,8,11) by (simp add: mergedRows_nth mergedRow_new)
  have b: "getCellValue (mergedRows ?data d ?rs ! j') ?nc = Number (quantite e)"
    using assms(5,6,9,10,11) by (simp add: mergedRows_nth mergedRow_new)
  have "updateTracking wb (exportSheet # others) d = Some (None, ?wb')"
    by (rule updateTracking_result [OF assms(1,2)])
  with a b rows show ?thesis by simp
qed

theorem duplicate_keys_get_full_quantity_witness:
  "\<exists>wb'. updateTracking trackingDup [exportA] ''15/01/2024'' = Some (None, wb')
      \<and> getCellValue (ws_rows (wb' ! 0) ! 1) 5 = Number 3
      \<and> getCellValue (ws_rows (wb' ! 0) ! 2) 5 = Number 3"
proof -
  have rs: "ws_rows (trackingDup ! 0) =
              [identityHeader,
               [Text ''X1'', Text ''Valve'', Text ''A'', Text ''Depot A''],
               [Text ''X1'', Text ''Valve (copy)'', Text ''A'', Text ''Depot A'']]"
    by (simp add: trackingDup_def sheetOf_def)
  have h1: "getWorksheet trackingDup ''Liste de Stock'' = Some 0"
    by (simp add: getWorksheet_def trackingDup_def sheetOf_def)
  have h2: "Text ''15/01/2024'' \<notin> set (getRow1 (ws_rows (trackingDup ! 0)))"
    by (simp add: rs getRow1_def identityHeader_def)
  have k: "stockKey (ws_rows (trackingDup ! 0) ! 1) = ''X1|A''"
          "stockKey (ws_rows (trackingDup ! 0) ! 2) = ''X1|A''"
    by (simp_all add: rs stockKey_def makeKey_def getCellValue_def)
  have e: "map_of (extractExportData (ws_rows exportA)) (stockKey (ws_rows (trackingDup ! 0) ! 1))
             = Some \<lparr>codeArticle = Text ''X1'', emplacement = Text ''A'',
                     description = Text ''Valve'', descEmplacement = Text ''Depot A'',
                     quantite = 3\<rparr>"
    unfolding k by code_simp
  have hv: "hasValues (ws_rows (trackingDup ! 0) ! 1)" "hasValues (ws_rows (trackingDup ! 0) ! 2)"
    by (simp_all add: rs hasValues_def)
  have keq: "stockKey (ws_rows (trackingDup ! 0) ! 1) = stockKey (ws_rows (trackingDup ! 0) ! 2)"
    using k by simp
  have len1: "1 < length (ws_rows (trackingDup ! 0))" by (simp add: rs)
  have len2: "2 < length (ws_rows (trackingDup ! 0))" by (simp add: rs)
  have "\<exists>wb'. updateTracking trackingDup (exportA # []) ''15/01/2024'' = Some (None, wb')
      \<and> getCellValue (ws_rows (wb' ! 0) ! 1)
            (length (getRow1 (ws_rows (trackingDup ! 0))) + 1) = Number (quantite
              \<lparr>codeArticle = Text ''X1'', emplacement = Text ''A'',
                description = Text ''Valve'', descEmplacement = Text ''Depot A'',
                quantite = 3\<rparr>)
      \<and> getCellValue (ws_rows (wb' ! 0) ! 2)
            (length (getRow1 (ws_rows (trackingDup ! 0))) + 1) = Number (quantite
              \<lparr>codeArticle = Text ''X1'', emplacement = Text ''A'',
                description = Text ''Valve'', descEmplacement = Text ''Depot A'',
                quantite = 3\<rparr>)"
    by (rule duplicate_keys_get_full_quantity [OF h1 h2 _ len1 _ len2 _ hv keq e]) simp_all
  moreover have "length (getRow1 (ws_rows (trackingDup ! 0))) + 1 = 5"
    by (simp add: rs getRow1_def identityHeader_def)
  ultimately show ?thesis by (simp only: entry.simps)
qed

section \<open>The variations\<close>

lemma variationRow_data:
  "n \<noteq> 1 \<Longrightarrow>
     variationRow sn cur prev vs (n, r) =
       (if variationOf sn cur prev r \<noteq> Number 0 then vs @ [recordOf sn cur prev r] else vs)"
  by (simp add: variationRow_def variationOf_def recordOf_def quantityAt_def Let_def)

lemma variationRow_header: "variationRow sn cur prev vs (Suc 0, r) = vs"
  by (simp add: variationRow_def)

lemma variationOf_empty: "\<not> hasValues r \<Longrightarrow> variationOf sn cur prev r = Number 0"
  by (simp add: variationOf_def quantityAt_def not_hasValues_cell js_or_def js_minus_def)

lemma foldl_variationRow_from:
  "2 \<le> n \<Longrightarrow>
     foldl (variationRow sn cur prev) acc (filter (\<lambda>(n, r). hasValues r) (enumerate n rs))
       = acc @ map (recordOf sn cur prev) (filter (\<lambda>r. variationOf sn cur prev r \<noteq> Number 0) rs)"
proof (induction rs arbitrary: acc n)
  case Nil
  then show ?case by simp
next
  case (Cons r rs)
  have n1: "n \<noteq> 1" using Cons.prems by simp
  have "2 \<le> Suc n" using Cons.prems by simp
  note IH = Cons.IH [OF this]
  show ?case
  proof (cases "hasValues r")
    case True
    then show ?thesis using IH by (simp add: variationRow_data [OF n1])
  next
    case False
    then show ?thesis using IH by (simp add: variationOf_empty)
  qed
qed

lemma calculateVariations_eq:
  "calculateVariations sn rs cur prev =
     map (recordOf sn cur prev) (filter (\<lambda>r. variationOf sn cur prev r \<noteq> Number 0) (drop 1 rs))"
proof (cases rs)
  case Nil
  then show ?thesis by (simp add: calculateVariations_def eachRow_def)
next
  case (Cons h t)
  have "foldl (variationRow sn cur prev) []
          (filter (\<lambda>(n, r). hasValues r) (enumerate (Suc 1) t))
        = [] @ map (recordOf sn cur prev)
                 (filter (\<lambda>r. variationOf sn cur prev r \<noteq> Number 0) t)"
    by (rule foldl_variationRow_from) simp
  then show ?thesis using Cons
    by (simp add: calculateVariations_def eachRow_def variationRow_header)
qed

text \<open>
  Claim C5 (variation computation). For the two column positions that a report resolved
  (column numbers start at 1), \<open>calculateVariations\<close> goes through the rows after the
  header in the order of the table and yields, in this order, the record of each row
  whose variation is not 0: no record has the variation 0. The variation is the current
  quantity minus the previous one, an absent quantity being read as 0.
\<close>

theorem calculateVariations_rows:
  assumes "1 \<le> cur" and "1 \<le> prev"
  shows "calculateVariations sn rs cur prev =
           map (recordOf sn cur prev)
             (filter (\<lambda>r. variationOf sn cur prev r \<noteq> Number 0) (drop 1 rs))
       \<and> (\<forall>v \<in> set (calculateVariations sn rs cur prev). variation v \<noteq> Number 0)
       \<and> (\<forall>r c. getCellValue r c = Null \<longrightarrow> quantityAt r c = Number 0)
       \<and> (\<forall>r a b. quantityAt r cur = Number a \<and> quantityAt r prev = Number b \<longrightarrow>
             variationOf sn cur prev r = Number (a - b))"
proof -
  have "\<forall>v \<in> set (calculateVariations sn rs cur prev). variation v \<noteq> Number 0"
    by (auto simp: calculateVariations_eq recordOf_def)
  moreover have "\<forall>r c. getCellValue r c = Null \<longrightarrow> quantityAt r c = Number 0"
    by (simp add: quantityAt_def js_or_def)
  moreover have "\<forall>r a b. quantityAt r cur = Number a \<and> quantityAt r prev = Number b \<longrightarrow>
                   variationOf sn cur prev r = Number (a - b)"
    by (simp add: variationOf_def js_minus_def)
  ultimately show ?thesis by (simp add: calculateVariations_eq)
qed

theorem calculateVariations_rows_witness:
  "calculateVariations noNumber
     [identityHeader @ [Text ''01/01/2024'', Text ''01/02/2024''],
      [Text ''X1'', Text ''Valve'', Text ''A'', Text ''Depot A'', Number 7, Number 7],
      [Text ''X2'', Text ''Pump'', Text ''A'', Text ''Depot A'', Number 4],
      [Text ''X3'', Text ''Hose'', Text ''B'', Text ''Depot B'', Null, Number 2]] 6 5 =
   [\<lparr>codif = Text ''X2'', designation = Text ''Pump'', magasin = Text ''A'',
     vdescription = Text ''Depot A'', variation = Number (- 4), qtyActuelle = Number 0\<rparr>,
    \<lparr>codif = Text ''X3'', designation = Text ''Hose'', magasin = Text ''B'',
     vdescription = Text ''Depot B'', variation = Number 2, qtyActuelle = Number 2\<rparr>]"
proof -
  have c: "(1::nat) \<le> 6" and p: "(1::nat) \<le> 5" by simp_all
  from calculateVariations_rows [OF c p] show ?thesis
    by (simp add: recordOf_def variationOf_def quantityAt_def js_or_def js_minus_def
          getCellValue_def identityHeader_def)
qed

section \<open>The report steps\<close>

lemma indexOf_bounds: "- 1 \<le> indexOf xs x \<and> indexOf xs x < int (length xs)"
  by (induction xs) (auto simp: Let_def)

lemma indexOf_first:
  "i < length xs \<Longrightarrow> xs ! i = x \<Longrightarrow> x \<notin> set (take i xs) \<Longrightarrow> indexOf xs x = int i"
proof (induction xs arbitrary: i)
  case Nil
  then show ?case by simp
next
  case (Cons y ys)
  show ?case
  proof (cases i)
    case 0
    then show ?thesis using Cons.prems by simp
  next
    case (Suc k)
    then have "indexOf ys x = int k" and "y \<noteq> x"
      using Cons.prems Cons.IH [of k] by auto
    then show ?thesis using Suc by (simp add: Let_def)
  qed
qed

lemma addWorksheet_Inr:
  "addWorksheet wb nm = Inr wb2 \<Longrightarrow> wb2 = wb @ [newWorksheet nm]"
  by (auto simp: addWorksheet_def split: if_splits)

lemma updateReport_ok:
  assumes "fst (updateReport sn prefix nm msg n wb d) = None"
  shows "\<exists>j. getWorksheet wb ''Liste de Stock'' = Some j
           \<and> snd (updateReport sn prefix nm msg n wb d) =
               withoutFirstMatch wb prefix
                 @ [fillReport sn msg n (ws_rows (wb ! j)) d (newWorksheet nm)]"
proof (cases "addWorksheet (withoutFirstMatch wb prefix) nm")
  case (Inl e)
  then show ?thesis
    using assms by (simp add: updateReport_def withoutFirstMatch_def Let_def)
next
  case (Inr wb2)
  then have wb2: "wb2 = withoutFirstMatch wb prefix @ [newWorksheet nm]"
    by (rule addWorksheet_Inr)
  show ?thesis
  proof (cases "getWorksheet wb ''Liste de Stock''")
    case None
    then show ?thesis
      using assms Inr by (simp add: updateReport_def withoutFirstMatch_def Let_def)
  next
    case (Some j)
    then show ?thesis
      using Inr wb2 by (simp add: updateReport_def withoutFirstMatch_def Let_def)
  qed
qed

lemma fillReport_nodata:
  assumes "indexOf (getHeaders rs) (Text d) < int n
           \<or> \<not> isValidDate (getHeaders rs ! nat (indexOf (getHeaders rs) (Text d) - int n))"
  shows "fillReport sn msg n rs d sheet = addNoDataMessage sheet msg d"
  using assms by (auto simp: fillReport_def Let_def)

lemma sheet_rows:
  "ws_rows (setValue s r c v) = putCell (ws_rows s) r c v"
  "ws_rows (setStyle s r c f) = ws_rows s"
  "ws_rows (mergeCells s rng) = ws_rows s"
  "ws_rows (newWorksheet nm) = []"
  by (simp_all add: setValue_def setStyle_def mergeCells_def newWorksheet_def)

lemma sheet_styles:
  "ws_styles (setValue s r c v) = ws_styles s"
  "ws_styles (setStyle s r c f) pos = (if pos = (r, c) then f (ws_styles s pos) else ws_styles s pos)"
  "ws_styles (mergeCells s rng) = ws_styles s"
  "ws_styles (newWorksheet nm) pos = no_style"
  by (simp_all add: setValue_def setStyle_def mergeCells_def newWorksheet_def)

lemma sheet_merges:
  "ws_merges (setValue s r c v) = ws_merges s"
  "ws_merges (setStyle s r c f) = ws_merges s"
  "ws_merges (mergeCells s rng) = ws_merges s @ [rng]"
  "ws_merges (newWorksheet nm) = []"
  by (simp_all add: setValue_def setStyle_def mergeCells_def newWorksheet_def)

lemma sheet_name:
  "ws_name (setValue s r c v) = ws_name s"
  "ws_name (setStyle s r c f) = ws_name s"
  "ws_name (mergeCells s rng) = ws_name s"
  "ws_name (newWorksheet nm) = nm"
  by (simp_all add: setValue_def setStyle_def mergeCells_def newWorksheet_def)

lemma addNoDataMessage_new:
  "ws_rows (addNoDataMessage (newWorksheet nm) msg d) = [[Text msg]]
   \<and> ws_merges (addNoDataMessage (newWorksheet nm) msg d) = [''A1:F1'']"
  by (simp add: addNoDataMessage_def sheet_rows sheet_merges putCell_def setCellValue_def)

text \<open>
  The guard of a report in terms of the position \<open>P\<close> of the date among the date columns:
  the header is a list \<open>meta\<close> of labels that are not dates, followed by the date labels.
\<close>

lemma guard_index:
  assumes hdr: "getHeaders rs = meta @ dates"
      and P: "1 \<le> P" "P \<le> length dates" "dates ! (P - 1) = Text d"
             "Text d \<notin> set (take (P - 1) dates)" "Text d \<notin> set meta"
  shows "indexOf (getHeaders rs) (Text d) = int (length meta + P - 1)"
proof -
  define k where "k = P - 1"
  have k: "k < length dates" "dates ! k = Text d" "Text d \<notin> set (take k dates)"
    using P by (simp_all add: k_def)
  have "length meta + k < length (meta @ dates)" using k by simp
  moreover have "(meta @ dates) ! (length meta + k) = Text d" using k by simp
  moreover have "Text d \<notin> set (take (length meta + k) (meta @ dates))" using k P(5) by simp
  ultimately have "indexOf (getHeaders rs) (Text d) = int (length meta + k)"
    unfolding hdr by (rule indexOf_first)
  moreover have "length meta + k = length meta + P - 1" using P(1) by (simp add: k_def)
  ultimately show ?thesis by simp
qed

lemma guard_position:
  assumes hdr: "getHeaders rs = meta @ dates"
      and meta: "\<forall>m \<in> set meta. \<not> isValidDate m"
      and P: "1 \<le> P" "P \<le> length dates" "dates ! (P - 1) = Text d"
             "Text d \<notin> set (take (P - 1) dates)" "Text d \<notin> set meta"
      and low: "P \<le> n"
  shows "indexOf (getHeaders rs) (Text d) < int n
         \<or> \<not> isValidDate (getHeaders rs ! nat (indexOf (getHeaders rs) (Text d) - int n))"
proof -
  define i where "i = length meta + P - 1"
  have idx: "indexOf (getHeaders rs) (Text d) = int i"
    unfolding i_def by (rule guard_index [OF hdr P])
  show ?thesis
  proof (cases "i < n")
    case True
    then show ?thesis using idx by simp
  next
    case False
    then have "i - n < length meta" using low P(1) unfolding i_def by arith
    then have "(meta @ dates) ! (i - n) \<in> set meta" by (simp add: nth_append)
    then have "\<not> isValidDate ((meta @ dates) ! (i - n))" using meta by blast
    moreover have "nat (int i - int n) = i - n" by simp
    ultimately show ?thesis using idx hdr by simp
  qed
qed

lemma updateReport_nodata:
  assumes ok: "fst (updateReport sn prefix nm msg n wb d) = None"
      and stock: "getWorksheet wb ''Liste de Stock'' = Some j"
      and hdr: "getHeaders (ws_rows (wb ! j)) = meta @ dates"
      and meta: "\<forall>m \<in> set meta. \<not> isValidDate m"
      and P: "1 \<le> P" "P \<le> length dates" "dates ! (P - 1) = Text d"
             "Text d \<notin> set (take (P - 1) dates)" "Text d \<notin> set meta"
      and guard: "P < n \<or> (n \<le> length meta + P - 1
                    \<and> \<not> isValidDate ((meta @ dates) ! (length meta + P - 1 - n)))"
  shows "last (snd (updateReport sn prefix nm msg n wb d)) = addNoDataMessage (newWorksheet nm) msg d"
proof -
  let ?rs = "ws_rows (wb ! j)"
  have idx: "indexOf (getHeaders ?rs) (Text d) = int (length meta + P - 1)"
    by (rule guard_index [OF hdr P])
  have g: "indexOf (getHeaders ?rs) (Text d) < int n
           \<or> \<not> isValidDate (getHeaders ?rs ! nat (indexOf (getHeaders ?rs) (Text d) - int n))"
  proof (cases "P < n")
    case True
    then have "P \<le> n" by simp
    from guard_position [OF hdr meta P this] show ?thesis .
  next
    case False
    then have v: "n \<le> length meta + P - 1"
      "\<not> isValidDate ((meta @ dates) ! (length meta + P - 1 - n))"
      using guard by auto
    have "nat (int (length meta + P - 1) - int n) = length meta + P - 1 - n" by simp
    then show ?thesis using v idx hdr by simp
  qed
  from updateReport_ok [OF ok] stock
  have "snd (updateReport sn prefix nm msg n wb d) =
          withoutFirstMatch wb prefix @ [fillReport sn msg n ?rs d (newWorksheet nm)]"
    by auto
  then show ?thesis by (simp add: fillReport_nodata [OF g])
qed

lemma updateReport_nodata_at_threshold:
  assumes ok: "fst (updateReport sn prefix nm msg n wb d) = None"
      and stock: "getWorksheet wb ''Liste de Stock'' = Some j"
      and hdr: "getHeaders (ws_rows (wb ! j)) = meta @ dates"
      and meta: "\<forall>m \<in> set meta. \<not> isValidDate m"
      and P: "1 \<le> P" "P \<le> length dates" "dates ! (P - 1) = Text d"
             "Text d \<notin> set (take (P - 1) dates)" "Text d \<notin> set meta"
      and low: "P \<le> n"
  shows "last (snd (updateReport sn prefix nm msg n wb d)) = addNoDataMessage (newWorksheet nm) msg d"
proof -
  from updateReport_ok [OF ok] stock
  have "snd (updateReport sn prefix nm msg n wb d) =
          withoutFirstMatch wb prefix @ [fillReport sn msg n (ws_rows (wb ! j)) d (newWorksheet nm)]"
    by auto
  then show ?thesis by (simp add: fillReport_nodata [OF guard_position [OF hdr meta P low]])
qed

lemma updateReport_fst:
  "fst (updateReport sn prefix nm msg n wb d) =
     (case addWorksheet (withoutFirstMatch wb prefix) nm of
        Inl e \<Rightarrow> Some e
      | Inr wb2 \<Rightarrow> (case getWorksheet wb ''Liste de Stock'' of
                      None \<Rightarrow> Some TypeError | Some j \<Rightarrow> None))"
  by (simp add: updateReport_def withoutFirstMatch_def Let_def split: sum.splits option.splits)

lemma workbookC_facts:
  "findSheetByPrefix workbookC ''suivi mensuel'' = Some 2"
  "findSheetByPrefix workbookC ''suivi semestriel'' = Some 1"
  "getWorksheet workbookC ''Liste de Stock'' = Some 0"
  "(\<exists>ws \<in> set [stockC, staleSemester, staleCopy].
       toLowerCase (ws_name ws) = toLowerCase ''Suivi Mensuel'') = False"
  "(\<exists>ws \<in> set [stockC, staleReport, staleCopy].
       toLowerCase (ws_name ws) = toLowerCase ''Suivi Semestriel'') = False"
  by code_simp+

lemma workbookC_without:
  "withoutFirstMatch workbookC ''suivi mensuel'' = [stockC, staleSemester, staleCopy]"
  "withoutFirstMatch workbookC ''suivi semestriel'' = [stockC, staleReport, staleCopy]"
  by (simp_all add: withoutFirstMatch_def workbookC_facts removeWorksheet_def)
     (simp_all add: workbookC_def)

lemma workbookC_returns:
  "fst (updateMonthlyTracking sn workbookC d) = None"
  "fst (updateSemestrialTracking sn workbookC d) = None"
  by (simp_all add: updateMonthlyTracking_def updateSemestrialTracking_def updateReport_fst
        workbookC_without addWorksheet_def workbookC_facts del: set_simps)

text \<open>
  Claim C4 (lookback guard). The header of the stock sheet is a list of identity labels,
  none of which is a valid date, followed by the date labels, and the date of the report
  is the date column of position \<open>P\<close> (counted from 1 among the date columns). Whenever
  the monthly step returns and \<open>P < 1\<close>, or the label one column back is not a valid date,
  the new report sheet is exactly the sheet with the single message row; the same holds
  of the semestrial step with \<open>P < 6\<close> and the label six columns back. That sheet has
  one row with one value, no header row and no data row, whatever the rows of the table.
\<close>

theorem lookback_guard:
  assumes "getWorksheet wb ''Liste de Stock'' = Some j"
      and "getHeaders (ws_rows (wb ! j)) = meta @ dates"
      and "\<forall>m \<in> set meta. \<not> isValidDate m"
      and "1 \<le> P" and "P \<le> length dates" and "dates ! (P - 1) = Text d"
      and "Text d \<notin> set (take (P - 1) dates)" and "Text d \<notin> set meta"
  shows "(fst (updateMonthlyTracking sn wb d) = None
          \<and> (P < 1 \<or> (1 \<le> length meta + P - 1
                        \<and> \<not> isValidDate ((meta @ dates) ! (length meta + P - 1 - 1))))
          \<longrightarrow> last (snd (updateMonthlyTracking sn wb d)) =
                addNoDataMessage (newWorksheet ''Suivi Mensuel'') monthMessage d)
       \<and> (fst (updateSemestrialTracking sn wb d) = None
          \<and> (P < 6 \<or> (6 \<le> length meta + P - 1
                        \<and> \<not> isValidDate ((meta @ dates) ! (length meta + P - 1 - 6))))
          \<longrightarrow> last (snd (updateSemestrialTracking sn wb d)) =
                addNoDataMessage (newWorksheet ''Suivi Semestriel'') semesterMessage d)
       \<and> ws_rows (addNoDataMessage (newWorksheet nm) msg d) = [[Text msg]]
       \<and> ws_merges (addNoDataMessage (newWorksheet nm) msg d) = [''A1:F1'']"
proof (intro conjI impI)
  assume a: "fst (updateMonthlyTracking sn wb d) = None
          \<and> (P < 1 \<or> (1 \<le> length meta + P - 1
                        \<and> \<not> isValidDate ((meta @ dates) ! (length meta + P - 1 - 1))))"
  then have ok: "fst (updateReport sn ''suivi mensuel'' ''Suivi Mensuel'' monthMessage 1 wb d) = None"
    by (simp add: updateMonthlyTracking_def)
  from a have g: "P < 1 \<or> (1 \<le> length meta + P - 1
                        \<and> \<not> isValidDate ((meta @ dates) ! (length meta + P - 1 - 1)))"
    by simp
  from updateReport_nodata [OF ok assms g]
  show "last (snd (updateMonthlyTracking sn wb d)) =
          addNoDataMessage (newWorksheet ''Suivi Mensuel'') monthMessage d"
    by (simp add: updateMonthlyTracking_def)
next
  assume a: "fst (updateSemestrialTracking sn wb d) = None
          \<and> (P < 6 \<or> (6 \<le> length meta + P - 1
                        \<and> \<not> isValidDate ((meta @ dates) ! (length meta + P - 1 - 6))))"
  then have ok: "fst (updateReport sn ''suivi semestriel'' ''Suivi Semestriel'' semesterMessage 6 wb d)
                   = None"
    by (simp add: updateSemestrialTracking_def)
  from a have g: "P < 6 \<or> (6 \<le> length meta + P - 1
                        \<and> \<not> isValidDate ((meta @ dates) ! (length meta + P - 1 - 6)))"
    by simp
  from updateReport_nodata [OF ok assms g]
  show "last (snd (updateSemestrialTracking sn wb d)) =
          addNoDataMessage (newWorksheet ''Suivi Semestriel'') semesterMessage d"
    by (simp add: updateSemestrialTracking_def)
next
  show "ws_rows (addNoDataMessage (newWorksheet nm) msg d) = [[Text msg]]"
    by (simp add: addNoDataMessage_new)
next
  show "ws_merges (addNoDataMessage (newWorksheet nm) msg d) = [''A1:F1'']"
    by (simp add: addNoDataMessage_new)
qed

theorem lookback_guard_witness:
  "last (snd (updateMonthlyTracking noNumber workbookC ''01/01/2024'')) =
     addNoDataMessage (newWorksheet ''Suivi Mensuel'') monthMessage ''01/01/2024''
   \<and> last (snd (updateSemestrialTracking noNumber workbookC ''01/01/2024'')) =
     addNoDataMessage (newWorksheet ''Suivi Semestriel'') semesterMessage ''01/01/2024''
   \<and> ws_rows (addNoDataMessage (newWorksheet ''Suivi Mensuel'') monthMessage ''01/01/2024'') =
       [[Text monthMessage]]"
proof -
  define dates where
    "dates = [Text ''01/01/2024'', Text ''01/02/2024'', Text ''01/03/2024'', Text ''01/04/2024'',
              Text ''01/05/2024'', Text ''01/06/2024'', Text ''01/07/2024'']"
  have h1: "getWorksheet workbookC ''Liste de Stock'' = Some 0"
    by (simp add: getWorksheet_def workbookC_def stockC_def sheetOf_def)
  have h2: "getHeaders (ws_rows (workbookC ! 0)) = identityHeader @ dates"
    by (simp add: workbookC_def stockC_def sheetOf_def getHeaders_def getRow1_def eachCell_def
          identityHeader_def dates_def)
  have h3: "\<forall>m \<in> set identityHeader. \<not> isValidDate m"
    by (simp add: identityHeader_def iso_pattern_def fr_pattern_def)
  have h4: "(1::nat) \<le> 1" by simp
  have h5: "1 \<le> length dates" by (simp add: dates_def)
  have h6: "dates ! (1 - 1) = Text ''01/01/2024''" by (simp add: dates_def)
  have h7: "Text ''01/01/2024'' \<notin> set (take (1 - 1) dates)" by simp
  have h8: "Text ''01/01/2024'' \<notin> set identityHeader" by (simp add: identityHeader_def)
  have m: "fst (updateMonthlyTracking noNumber workbookC ''01/01/2024'') = None"
    by code_simp
  have s: "fst (updateSemestrialTracking noNumber workbookC ''01/01/2024'') = None"
    by code_simp
  have l: "\<not> isValidDate ((identityHeader @ dates) ! (length identityHeader + 1 - 1 - 1))"
    by (simp add: identityHeader_def iso_pattern_def fr_pattern_def)
  from lookback_guard [OF h1 h2 h3 h4 h5 h6 h7 h8, of noNumber "''Suivi Mensuel''" monthMessage]
    m s l
  show ?thesis by (simp add: identityHeader_def)
qed

text \<open>
  Claim C6 (scenario C). The stock sheet has four identity labels and seven date labels in
  its header and one data row with the quantities 10, 10, 10, 10, 10, 10 and 3. The
  semestrial step for the seventh date, when it returns, compares column 11 (the seventh
  date, 3) with column 5 (the first date, 10): exactly one record, of variation -7 and
  current quantity 3. The new sheet has the title with the two dates in row 1, the six
  headers in row 2 and the record in row 3, and the cell of the current quantity has the
  fill of the quantities of at most 5.
\<close>

theorem semestrial_scenario_C:
  assumes stock: "getWorksheet wb ''Liste de Stock'' = Some j"
      and rows: "ws_rows (wb ! j) =
                   [[m1, m2, m3, m4, Text d1, Text d2, Text d3, Text d4, Text d5, Text d6, Text d7],
                    [a, b, c, e, Number 10, Number 10, Number 10, Number 10, Number 10, Number 10,
                     Number 3]]"
      and labels: "m1 \<noteq> Null" "m2 \<noteq> Null" "m3 \<noteq> Null" "m4 \<noteq> Null"
      and fresh: "Text d7 \<notin> {m1, m2, m3, m4}" "d7 \<notin> {d1, d2, d3, d4, d5, d6}"
      and valid: "isValidDate (Text d1)"
      and ok: "fst (updateSemestrialTracking sn wb d7) = None"
  shows "calculateVariations sn (ws_rows (wb ! j)) 11 5 =
           [\<lparr>codif = a, designation = b, magasin = c, vdescription = e,
             variation = Number (- 7), qtyActuelle = Number 3\<rparr>]
       \<and> last (snd (updateSemestrialTracking sn wb d7)) =
           writeVariationsSheet sn (newWorksheet ''Suivi Semestriel'')
             (calculateVariations sn (ws_rows (wb ! j)) 11 5)
             (''Variation entre le '' @ d1 @ '' et le '' @ d7) reportHeaders
       \<and> ws_rows (last (snd (updateSemestrialTracking sn wb d7))) =
           [[Text (''Variation entre le '' @ d1 @ '' et le '' @ d7)],
            map Text reportHeaders,
            [a, b, c, e, Number (- 7), Number 3]]
       \<and> fill (ws_styles (last (snd (updateSemestrialTracking sn wb d7))) (3, 6)) =
           Some ''FFFFCCCC''"
proof -
  let ?rs = "ws_rows (wb ! j)"
  let ?rec = "\<lparr>codif = a, designation = b, magasin = c, vdescription = e,
               variation = Number (- 7), qtyActuelle = Number 3\<rparr>"
  let ?title = "''Variation entre le '' @ d1 @ '' et le '' @ d7"
  let ?sheet = "writeVariationsSheet sn (newWorksheet ''Suivi Semestriel'') [?rec] ?title
                  reportHeaders"
  have v: "calculateVariations sn ?rs 11 5 = [?rec]"
    by (simp add: rows calculateVariations_eq recordOf_def variationOf_def quantityAt_def
          js_or_def js_minus_def getCellValue_def)
  have hd: "getHeaders ?rs =
              [m1, m2, m3, m4, Text d1, Text d2, Text d3, Text d4, Text d5, Text d6, Text d7]"
    using labels by (simp add: rows getHeaders_def getRow1_def eachCell_def)
  have idx: "indexOf (getHeaders ?rs) (Text d7) = 10"
    using fresh by (auto simp: hd Let_def)
  have prev: "getHeaders ?rs ! 4 = Text d1"
    by (simp add: hd)
  have fr: "fillReport sn semesterMessage 6 ?rs d7 (newWorksheet ''Suivi Semestriel'') = ?sheet"
    using valid by (simp add: fillReport_def Let_def idx prev v del: isValidDate.simps)
  have "fst (updateReport sn ''suivi semestriel'' ''Suivi Semestriel'' semesterMessage 6 wb d7)
          = None"
    using ok by (simp add: updateSemestrialTracking_def)
  from updateReport_ok [OF this] stock
  have "snd (updateSemestrialTracking sn wb d7) =
          withoutFirstMatch wb ''suivi semestriel''
            @ [fillReport sn semesterMessage 6 ?rs d7 (newWorksheet ''Suivi Semestriel'')]"
    by (auto simp: updateSemestrialTracking_def)
  then have lst: "last (snd (updateSemestrialTracking sn wb d7)) = ?sheet"
    by (simp add: fr)
  have rws: "ws_rows ?sheet = [[Text ?title], map Text reportHeaders,
                               [a, b, c, e, Number (- 7), Number 3]]"
    by (simp add: writeVariationsSheet_def writeItem_def Let_def sheet_rows reportHeaders_def
          js_le_def putCell_def setCellValue_def)
  have fl: "fill (ws_styles ?sheet (3, 6)) = Some ''FFFFCCCC''"
    by (simp add: writeVariationsSheet_def writeItem_def Let_def sheet_styles reportHeaders_def
          js_le_def filled_def)
  from v lst rws fl show ?thesis by simp
qed

theorem semestrial_scenario_C_witness:
  "calculateVariations noNumber (ws_rows stockC) 11 5 =
     [\<lparr>codif = Text ''X1'', designation = Text ''Valve'', magasin = Text ''A'',
       vdescription = Text ''Depot A'', variation = Number (- 7), qtyActuelle = Number 3\<rparr>]
   \<and> ws_rows (last (snd (updateSemestrialTracking noNumber workbookC ''01/07/2024''))) =
       [[Text ''Variation entre le 01/01/2024 et le 01/07/2024''],
        map Text reportHeaders,
        [Text ''X1'', Text ''Valve'', Text ''A'', Text ''Depot A'', Number (- 7), Number 3]]
   \<and> fill (ws_styles (last (snd (updateSemestrialTracking noNumber workbookC ''01/07/2024'')))
             (3, 6)) = Some ''FFFFCCCC''"
proof -
  have z: "workbookC ! 0 = stockC" by (simp add: workbookC_def)
  have rows: "ws_rows (workbookC ! 0) =
     [[Text ''Codification DSNA'', Text ''Designation'', Text ''Magasin'', Text ''Description'',
       Text ''01/01/2024'', Text ''01/02/2024'', Text ''01/03/2024'', Text ''01/04/2024'',
       Text ''01/05/2024'', Text ''01/06/2024'', Text ''01/07/2024''],
      [Text ''X1'', Text ''Valve'', Text ''A'', Text ''Depot A'',
       Number 10, Number 10, Number 10, Number 10, Number 10, Number 10, Number 3]]"
    by (simp add: z stockC_def sheetOf_def identityHeader_def)
  have valid: "isValidDate (Text ''01/01/2024'')"
    by (simp add: iso_pattern_def fr_pattern_def)
  have "calculateVariations noNumber (ws_rows (workbookC ! 0)) 11 5 =
           [\<lparr>codif = Text ''X1'', designation = Text ''Valve'', magasin = Text ''A'',
             vdescription = Text ''Depot A'', variation = Number (- 7), qtyActuelle = Number 3\<rparr>]
       \<and> last (snd (updateSemestrialTracking noNumber workbookC ''01/07/2024'')) =
           writeVariationsSheet noNumber (newWorksheet ''Suivi Semestriel'')
             (calculateVariations noNumber (ws_rows (workbookC ! 0)) 11 5)
             (''Variation entre le '' @ ''01/01/2024'' @ '' et le '' @ ''01/07/2024'') reportHeaders
       \<and> ws_rows (last (snd (updateSemestrialTracking noNumber workbookC ''01/07/2024''))) =
           [[Text (''Variation entre le '' @ ''01/01/2024'' @ '' et le '' @ ''01/07/2024'')],
            map Text reportHeaders,
            [Text ''X1'', Text ''Valve'', Text ''A'', Text ''Depot A'', Number (- 7), Number 3]]
       \<and> fill (ws_styles (last (snd (updateSemestrialTracking noNumber workbookC ''01/07/2024'')))
                 (3, 6)) = Some ''FFFFCCCC''"
    by (rule semestrial_scenario_C [OF workbookC_facts(3) rows _ _ _ _ _ _ valid
              workbookC_returns(2) [of noNumber "''01/07/2024''"]]) simp_all
  then have "calculateVariations noNumber (ws_rows (workbookC ! 0)) 11 5 =
           [\<lparr>codif = Text ''X1'', designation = Text ''Valve'', magasin = Text ''A'',
             vdescription = Text ''Depot A'', variation = Number (- 7), qtyActuelle = Number 3\<rparr>]"
    and "ws_rows (last (snd (updateSemestrialTracking noNumber workbookC ''01/07/2024''))) =
           [[Text (''Variation entre le '' @ ''01/01/2024'' @ '' et le '' @ ''01/07/2024'')],
            map Text reportHeaders,
            [Text ''X1'', Text ''Valve'', Text ''A'', Text ''Depot A'', Number (- 7), Number 3]]"
    and "fill (ws_styles (last (snd (updateSemestrialTracking noNumber workbookC ''01/07/2024'')))
                 (3, 6)) = Some ''FFFFCCCC''"
    by blast+
  then show ?thesis by (simp add: z)
qed

lemma indexWhere_first:
  "indexWhere P xs = Some i \<Longrightarrow> i < length xs \<and> P (xs ! i) \<and> (\<forall>k < i. \<not> P (xs ! k))"
proof (induction xs arbitrary: i)
  case Nil
  then show ?case by simp
next
  case (Cons x xs)
  show ?case
  proof (cases "P x")
    case True
    then show ?thesis using Cons.prems by simp
  next
    case False
    then obtain i' where i': "indexWhere P xs = Some i'" "i = Suc i'"
      using Cons.prems by auto
    from Cons.IH [OF i'(1)] False i'(2) show ?thesis
      by (auto simp: nth_Cons split: nat.splits)
  qed
qed

lemma indexWhere_None: "indexWhere P xs = None \<Longrightarrow> \<forall>x \<in> set xs. \<not> P x"
  by (induction xs) (auto split: if_splits)

lemma name_writeItem: "ws_name (writeItem sn s ii) = ws_name s"
  by (cases ii) (simp add: writeItem_def Let_def sheet_name)

lemma name_foldl:
  "(\<And>s x. ws_name (g s x) = ws_name s) \<Longrightarrow> ws_name (foldl g s xs) = ws_name s"
  by (induction xs arbitrary: s) simp_all

lemma name_writeVariationsSheet:
  "ws_name (writeVariationsSheet sn sheet vs title hs) = ws_name sheet"
proof -
  have h: "ws_name (foldl (\<lambda>s (i, header). setStyle (setValue s 2 (i + 1) (Text header)) 2 (i + 1)
                                            styleHeaderCell) s0 xs) = ws_name s0" for s0 xs
    by (rule name_foldl) (auto simp: sheet_name)
  have w: "ws_name (foldl (writeItem sn) s0 xs) = ws_name s0" for s0 xs
    by (rule name_foldl) (rule name_writeItem)
  show ?thesis
    unfolding writeVariationsSheet_def Let_def if_distrib [of ws_name] h w sheet_name
    by simp
qed

lemma name_fillReport: "ws_name (fillReport sn msg n rs d sheet) = ws_name sheet"
  by (simp add: fillReport_def Let_def addNoDataMessage_def name_writeVariationsSheet sheet_name)

lemma updateReport_appended:
  assumes found: "findSheetByPrefix wb prefix = Some i"
      and ok: "fst (updateReport sn prefix nm msg n wb d) = None"
  shows "length (snd (updateReport sn prefix nm msg n wb d)) = length wb
       \<and> take i (snd (updateReport sn prefix nm msg n wb d)) = take i wb
       \<and> (\<forall>k. i \<le> k \<and> Suc k < length wb \<longrightarrow>
             snd (updateReport sn prefix nm msg n wb d) ! k = wb ! Suc k)
       \<and> snd (updateReport sn prefix nm msg n wb d) ! (length wb - 1) =
           last (snd (updateReport sn prefix nm msg n wb d))
       \<and> ws_name (last (snd (updateReport sn prefix nm msg n wb d))) = nm"
proof -
  from updateReport_ok [OF ok] obtain j where
    res: "snd (updateReport sn prefix nm msg n wb d) =
            withoutFirstMatch wb prefix @ [fillReport sn msg n (ws_rows (wb ! j)) d (newWorksheet nm)]"
    by blast
  define F where "F = fillReport sn msg n (ws_rows (wb ! j)) d (newWorksheet nm)"
  have i: "i < length wb"
    using found indexWhere_first [of _ wb i] by (simp add: findSheetByPrefix_def)
  have rest: "withoutFirstMatch wb prefix = take i wb @ drop (Suc i) wb"
    using found by (simp add: withoutFirstMatch_def removeWorksheet_def)
  have r: "snd (updateReport sn prefix nm msg n wb d) = take i wb @ drop (Suc i) wb @ [F]"
    by (simp add: res rest F_def)
  have len: "length (take i wb @ drop (Suc i) wb @ [F]) = length wb" using i by simp
  have tk: "take i (take i wb @ drop (Suc i) wb @ [F]) = take i wb" using i by simp
  have nth: "(take i wb @ drop (Suc i) wb @ [F]) ! k = wb ! Suc k"
    if "i \<le> k \<and> Suc k < length wb" for k
  proof -
    have in_rest: "k - i < length (drop (Suc i) wb)" using that by simp arith
    have e: "Suc i + (k - i) = Suc k" using that by simp
    have "(take i wb @ drop (Suc i) wb @ [F]) ! k = (drop (Suc i) wb @ [F]) ! (k - i)"
      using that i by (simp add: nth_append)
    also have "\<dots> = drop (Suc i) wb ! (k - i)" using in_rest by (simp only: nth_append if_True)
    also have "\<dots> = wb ! (Suc i + (k - i))" using that by simp
    finally have "(take i wb @ drop (Suc i) wb @ [F]) ! k = wb ! (Suc i + (k - i))" .
    then show ?thesis by (simp only: e)
  qed
  have lst: "(take i wb @ drop (Suc i) wb @ [F]) ! (length wb - 1) = F"
  proof -
    have "length (take i wb @ drop (Suc i) wb) = length wb - 1" using i by simp
    then show ?thesis by (metis append.assoc nth_append_length)
  qed
  have nm: "ws_name F = nm" by (simp add: F_def name_fillReport sheet_name)
  show ?thesis
    unfolding r using len tk nth lst nm by (simp del: append.simps)
qed

text \<open>
  Claim C10 (the new report sheet goes to the end). When a sheet is found for the prefix at
  position \<open>i\<close> and the step returns, the workbook has as many sheets as before, the sheets
  before position \<open>i\<close> are in their places, every sheet that came after position \<open>i\<close> has
  moved one place up, and the new report sheet is the last sheet of the workbook, not the
  sheet at position \<open>i\<close>.
\<close>

theorem report_sheet_appended:
  "(findSheetByPrefix wb ''suivi mensuel'' = Some i
      \<and> fst (updateMonthlyTracking sn wb d) = None \<longrightarrow>
        length (snd (updateMonthlyTracking sn wb d)) = length wb
      \<and> take i (snd (updateMonthlyTracking sn wb d)) = take i wb
      \<and> (\<forall>k. i \<le> k \<and> Suc k < length wb \<longrightarrow>
            snd (updateMonthlyTracking sn wb d) ! k = wb ! Suc k)
      \<and> snd (updateMonthlyTracking sn wb d) ! (length wb - 1) =
          last (snd (updateMonthlyTracking sn wb d))
      \<and> ws_name (last (snd (updateMonthlyTracking sn wb d))) = ''Suivi Mensuel'')
   \<and> (findSheetByPrefix wb ''suivi semestriel'' = Some i'
      \<and> fst (updateSemestrialTracking sn wb d) = None \<longrightarrow>
        length (snd (updateSemestrialTracking sn wb d)) = length wb
      \<and> take i' (snd (updateSemestrialTracking sn wb d)) = take i' wb
      \<and> (\<forall>k. i' \<le> k \<and> Suc k < length wb \<longrightarrow>
            snd (updateSemestrialTracking sn wb d) ! k = wb ! Suc k)
      \<and> snd (updateSemestrialTracking sn wb d) ! (length wb - 1) =
          last (snd (updateSemestrialTracking sn wb d))
      \<and> ws_name (last (snd (updateSemestrialTracking sn wb d))) = ''Suivi Semestriel'')"
proof (rule conjI; rule impI)
  assume "findSheetByPrefix wb ''suivi mensuel'' = Some i
      \<and> fst (updateMonthlyTracking sn wb d) = None"
  then have a: "findSheetByPrefix wb ''suivi mensuel'' = Some i"
    and b: "fst (updateReport sn ''suivi mensuel'' ''Suivi Mensuel'' monthMessage 1 wb d) = None"
    by (simp_all add: updateMonthlyTracking_def)
  show "length (snd (updateMonthlyTracking sn wb d)) = length wb
      \<and> take i (snd (updateMonthlyTracking sn wb d)) = take i wb
      \<and> (\<forall>k. i \<le> k \<and> Suc k < length wb \<longrightarrow>
            snd (updateMonthlyTracking sn wb d) ! k = wb ! Suc k)
      \<and> snd (updateMonthlyTracking sn wb d) ! (length wb - 1) =
          last (snd (updateMonthlyTracking sn wb d))
      \<and> ws_name (last (snd (updateMonthlyTracking sn wb d))) = ''Suivi Mensuel''"
    unfolding updateMonthlyTracking_def by (rule updateReport_appended [OF a b])
next
  assume "findSheetByPrefix wb ''suivi semestriel'' = Some i'
      \<and> fst (updateSemestrialTracking sn wb d) = None"
  then have a: "findSheetByPrefix wb ''suivi semestriel'' = Some i'"
    and b: "fst (updateReport sn ''suivi semestriel'' ''Suivi Semestriel'' semesterMessage 6 wb d) = None"
    by (simp_all add: updateSemestrialTracking_def)
  show "length (snd (updateSemestrialTracking sn wb d)) = length wb
      \<and> take i' (snd (updateSemestrialTracking sn wb d)) = take i' wb
      \<and> (\<forall>k. i' \<le> k \<and> Suc k < length wb \<longrightarrow>
            snd (updateSemestrialTracking sn wb d) ! k = wb ! Suc k)
      \<and> snd (updateSemestrialTracking sn wb d) ! (length wb - 1) =
          last (snd (updateSemestrialTracking sn wb d))
      \<and> ws_name (last (snd (updateSemestrialTracking sn wb d))) = ''Suivi Semestriel''"
    unfolding updateSemestrialTracking_def by (rule updateReport_appended [OF a b])
qed

theorem report_sheet_appended_witness:
  "snd (updateMonthlyTracking noNumber workbookC ''01/07/2024'') ! 2 = staleCopy
   \<and> ws_name (snd (updateMonthlyTracking noNumber workbookC ''01/07/2024'') ! 3) = ''Suivi Mensuel''
   \<and> snd (updateSemestrialTracking noNumber workbookC ''01/07/2024'') ! 1 = staleReport
   \<and> ws_name (snd (updateSemestrialTracking noNumber workbookC ''01/07/2024'') ! 3)
       = ''Suivi Semestriel''"
proof -
  have len: "length workbookC = 4" by (simp add: workbookC_def)
  have nth: "workbookC ! 3 = staleCopy" "workbookC ! Suc (Suc 0) = staleReport"
    by (simp_all add: workbookC_def)
  from report_sheet_appended [of workbookC 2 noNumber "''01/07/2024''" 1]
    workbookC_facts(1,2) workbookC_returns [of noNumber "''01/07/2024''"]
  have m: "(\<forall>k. 2 \<le> k \<and> Suc k < length workbookC \<longrightarrow>
               snd (updateMonthlyTracking noNumber workbookC ''01/07/2024'') ! k = workbookC ! Suc k)"
    and ml: "snd (updateMonthlyTracking noNumber workbookC ''01/07/2024'') ! (length workbookC - 1) =
          last (snd (updateMonthlyTracking noNumber workbookC ''01/07/2024''))"
    and mn: "ws_name (last (snd (updateMonthlyTracking noNumber workbookC ''01/07/2024''))) = ''Suivi Mensuel''"
    and s: "(\<forall>k. 1 \<le> k \<and> Suc k < length workbookC \<longrightarrow>
               snd (updateSemestrialTracking noNumber workbookC ''01/07/2024'') ! k = workbookC ! Suc k)"
    and sl: "snd (updateSemestrialTracking noNumber workbookC ''01/07/2024'') ! (length workbookC - 1) =
          last (snd (updateSemestrialTracking noNumber workbookC ''01/07/2024''))"
    and sn: "ws_name (last (snd (updateSemestrialTracking noNumber workbookC ''01/07/2024''))) = ''Suivi Semestriel''"
    by blast+
  from m [rule_format, of 2] s [rule_format, of 1] ml mn sl sn len nth
  show ?thesis by simp
qed

text \<open>
  Claim C8 (report freshness), as stated: after a report step, any sheet whose name starts
  with the prefix of the report has been destroyed. It fails on a workbook with the two
  sheets "Suivi Mensuel" and "Suivi Mensuel (2)": the monthly step returns, and the second
  of them is still in the workbook, as it was.
\<close>

theorem report_freshness_counterexample:
  "fst (updateMonthlyTracking noNumber workbookC ''01/07/2024'') = None
   \<and> snd (updateMonthlyTracking noNumber workbookC ''01/07/2024'') ! 2 = staleCopy
   \<and> workbookC ! 3 = staleCopy
   \<and> startsWith (toLowerCase (ws_name staleCopy)) (toLowerCase ''suivi mensuel'')"
proof -
  have ok: "fst (updateReport noNumber ''suivi mensuel'' ''Suivi Mensuel'' monthMessage 1
                   workbookC ''01/07/2024'') = None"
    using workbookC_returns(1) [of noNumber "''01/07/2024''"]
    by (simp add: updateMonthlyTracking_def)
  from updateReport_ok [OF ok] obtain j where
    "snd (updateReport noNumber ''suivi mensuel'' ''Suivi Mensuel'' monthMessage 1
            workbookC ''01/07/2024'') =
       withoutFirstMatch workbookC ''suivi mensuel''
         @ [fillReport noNumber monthMessage 1 (ws_rows (workbookC ! j)) ''01/07/2024''
              (newWorksheet ''Suivi Mensuel'')]"
    by blast
  then have kept: "snd (updateMonthlyTracking noNumber workbookC ''01/07/2024'') ! 2 = staleCopy"
    by (simp add: updateMonthlyTracking_def workbookC_without)
  have same: "workbookC ! 3 = staleCopy" by (simp add: workbookC_def)
  have pre: "startsWith (toLowerCase (ws_name staleCopy)) (toLowerCase ''suivi mensuel'')"
    by code_simp
  from workbookC_returns(1) kept same pre show ?thesis by blast
qed

text \<open>
  Claim C8, amended. After a report step that returns without an error, the workbook is
  the former workbook without the first sheet, in the order of the workbook, whose name
  starts with the prefix (letter case apart), followed by one new sheet; every other sheet
  is left as it was, also one whose name starts with the prefix. The new sheet is exactly
  the report written on an empty sheet, computed from the rows of the stock sheet and the
  date alone: no value, style or merge of a former report is in it.
\<close>

theorem report_replaces_first_match:
  "(fst (updateMonthlyTracking sn wb d) = None \<longrightarrow>
      (\<exists>j. getWorksheet wb ''Liste de Stock'' = Some j
         \<and> snd (updateMonthlyTracking sn wb d) =
             withoutFirstMatch wb ''suivi mensuel''
               @ [fillReport sn monthMessage 1 (ws_rows (wb ! j)) d (newWorksheet ''Suivi Mensuel'')]))
   \<and> (fst (updateSemestrialTracking sn wb d) = None \<longrightarrow>
      (\<exists>j. getWorksheet wb ''Liste de Stock'' = Some j
         \<and> snd (updateSemestrialTracking sn wb d) =
             withoutFirstMatch wb ''suivi semestriel''
               @ [fillReport sn semesterMessage 6 (ws_rows (wb ! j)) d
                    (newWorksheet ''Suivi Semestriel'')]))
   \<and> (\<forall>i. findSheetByPrefix wb p = Some i \<longrightarrow>
          i < length wb
        \<and> startsWith (toLowerCase (ws_name (wb ! i))) (toLowerCase p)
        \<and> (\<forall>k < i. \<not> startsWith (toLowerCase (ws_name (wb ! k))) (toLowerCase p))
        \<and> withoutFirstMatch wb p = take i wb @ drop (Suc i) wb)
   \<and> (findSheetByPrefix wb p = None \<longrightarrow> withoutFirstMatch wb p = wb)
   \<and> ws_rows (newWorksheet nm) = [] \<and> ws_merges (newWorksheet nm) = []
   \<and> (\<forall>pos. ws_styles (newWorksheet nm) pos = no_style)"
proof -
  have m: "fst (updateMonthlyTracking sn wb d) = None \<longrightarrow>
      (\<exists>j. getWorksheet wb ''Liste de Stock'' = Some j
         \<and> snd (updateMonthlyTracking sn wb d) =
             withoutFirstMatch wb ''suivi mensuel''
               @ [fillReport sn monthMessage 1 (ws_rows (wb ! j)) d (newWorksheet ''Suivi Mensuel'')])"
    unfolding updateMonthlyTracking_def by (rule impI) (rule updateReport_ok)
  have s: "fst (updateSemestrialTracking sn wb d) = None \<longrightarrow>
      (\<exists>j. getWorksheet wb ''Liste de Stock'' = Some j
         \<and> snd (updateSemestrialTracking sn wb d) =
             withoutFirstMatch wb ''suivi semestriel''
               @ [fillReport sn semesterMessage 6 (ws_rows (wb ! j)) d
                    (newWorksheet ''Suivi Semestriel'')])"
    unfolding updateSemestrialTracking_def by (rule impI) (rule updateReport_ok)
  have f: "\<forall>i. findSheetByPrefix wb p = Some i \<longrightarrow>
          i < length wb
        \<and> startsWith (toLowerCase (ws_name (wb ! i))) (toLowerCase p)
        \<and> (\<forall>k < i. \<not> startsWith (toLowerCase (ws_name (wb ! k))) (toLowerCase p))
        \<and> withoutFirstMatch wb p = take i wb @ drop (Suc i) wb"
  proof (intro allI impI)
    fix i
    assume found: "findSheetByPrefix wb p = Some i"
    then have "indexWhere (\<lambda>sheet. startsWith (toLowerCase (ws_name sheet)) (toLowerCase p)) wb
                 = Some i"
      by (simp add: findSheetByPrefix_def)
    from indexWhere_first [OF this] found
    show "i < length wb
        \<and> startsWith (toLowerCase (ws_name (wb ! i))) (toLowerCase p)
        \<and> (\<forall>k < i. \<not> startsWith (toLowerCase (ws_name (wb ! k))) (toLowerCase p))
        \<and> withoutFirstMatch wb p = take i wb @ drop (Suc i) wb"
      by (simp add: withoutFirstMatch_def removeWorksheet_def)
  qed
  have n: "findSheetByPrefix wb p = None \<longrightarrow> withoutFirstMatch wb p = wb"
    by (simp add: withoutFirstMatch_def)
  have e: "ws_rows (newWorksheet nm) = [] \<and> ws_merges (newWorksheet nm) = []
           \<and> (\<forall>pos. ws_styles (newWorksheet nm) pos = no_style)"
    by (simp add: newWorksheet_def)
  from m s f n e show ?thesis by blast
qed

theorem report_replaces_first_match_witness:
  "snd (updateMonthlyTracking noNumber workbookC ''01/07/2024'') =
     [stockC, staleSemester, staleCopy,
      fillReport noNumber monthMessage 1 (ws_rows stockC) ''01/07/2024''
        (newWorksheet ''Suivi Mensuel'')]
   \<and> snd (updateSemestrialTracking noNumber workbookC ''01/07/2024'') =
     [stockC, staleReport, staleCopy,
      fillReport noNumber semesterMessage 6 (ws_rows stockC) ''01/07/2024''
        (newWorksheet ''Suivi Semestriel'')]"
proof -
  have z: "workbookC ! 0 = stockC" by (simp add: workbookC_def)
  from report_replaces_first_match [of noNumber workbookC "''01/07/2024''"]
    workbookC_returns [of noNumber "''01/07/2024''"]
  have "(\<exists>j. getWorksheet workbookC ''Liste de Stock'' = Some j
         \<and> snd (updateMonthlyTracking noNumber workbookC ''01/07/2024'') =
             withoutFirstMatch workbookC ''suivi mensuel''
               @ [fillReport noNumber monthMessage 1 (ws_rows (workbookC ! j)) ''01/07/2024''
                    (newWorksheet ''Suivi Mensuel'')])"
    and "(\<exists>j. getWorksheet workbookC ''Liste de Stock'' = Some j
         \<and> snd (updateSemestrialTracking noNumber workbookC ''01/07/2024'') =
             withoutFirstMatch workbookC ''suivi semestriel''
               @ [fillReport noNumber semesterMessage 6 (ws_rows (workbookC ! j)) ''01/07/2024''
                    (newWorksheet ''Suivi Semestriel'')])"
    by blast+
  then show ?thesis
    by (auto simp: workbookC_facts(3) workbookC_without z)
qed

end
